theory Spec2Isabelle
  imports Main
begin

section \<open>Server: confirming a proposal and the per-file workers\<close>

text \<open>
  The model follows \<^verbatim>\<open>confirmProposal\<close> (server, package proposal). A Go
  \<^verbatim>\<open>error\<close> is represented by its message. Output on standard output is kept as a
  list of lines, the calls of the \<^verbatim>\<open>onStream\<close> callback as a list of
  (content, error) pairs in call order.
\<close>

type_synonym error = string

record ProposalStage =
  CancelFn :: "nat option"
  Finished :: bool
  Err :: "error option"

record Plan = ProposalStage +
  ProposalId :: string
  NumFiles :: nat
  Files :: "string \<rightharpoonup> string"
  FileErrs :: "string \<rightharpoonup> error"
  FilesFinished :: "string \<rightharpoonup> bool"

record PlanDescription =
  MadePlan :: bool
  desc_Files :: "string list"

text \<open>
  Of a proposal, the worker code reads \<^verbatim>\<open>IsFinished()\<close>,
  \<^verbatim>\<open>PlanDescription.Files\<close> and the fields that go into the model request. The
  request itself only determines what the external model answers; those answers are
  inputs of the worker steps below, so the request text is not part of the state.
\<close>

record Proposal =
  proposal_Finished :: bool
  proposal_Content :: string
  proposal_PlanDescription :: PlanDescription

record PlanChunk =
  Path :: string
  Content :: string

record FunctionCall =
  Name :: string
  Arguments :: string

record Delta =
  delta_Content :: string
  delta_FunctionCall :: "FunctionCall option"

record Choice =
  FinishReason :: string
  choice_Delta :: Delta

datatype recv_result = RecvErr error | RecvOk "Choice list"

text \<open>
  A worker is the pair of goroutines started for one file path. Its closure holds the
  proposal id, the file path, the context of the \<^verbatim>\<open>confirmProposal\<close> call and the
  proposal (of which the expected file list is kept). The callback \<^verbatim>\<open>onError\<close> is
  built outside the goroutine and refers to the variable \<^verbatim>\<open>filePath\<close> of the
  \<^verbatim>\<open>for\<close> statement, not to the goroutine's parameter; \<open>w_errPath\<close> is the value
  that variable has when the callback runs. The control point of a worker is one of:
  before \<^verbatim>\<open>CreateChatCompletionStream\<close> returns, at the \<^verbatim>\<open>select\<close>, blocked in
  \<^verbatim>\<open>stream.Recv()\<close>, returned. \<open>w_timerC\<close> says whether the timer's channel holds a
  value (the timer has fired and the value was not received).
\<close>

datatype pc = Starting | AtSelect | InRecv | Stopped

record worker =
  w_proposalId :: string
  w_filePath :: string
  w_errPath :: string
  w_expected :: "string list"
  w_ctx :: nat
  w_pc :: pc
  w_timerC :: bool

record server =
  proposals :: "string \<rightharpoonup> Proposal"
  plans :: "string \<rightharpoonup> Plan"
  ctxDone :: "nat \<Rightarrow> bool"
  nextCtx :: nat
  workers :: "worker list"
  out :: "(string \<times> error option) list"
  stdout :: "string list"

text \<open>
  What the sources use without defining it is a parameter: the environment variable
  \<^verbatim>\<open>GOENV\<close>, the constant \<^verbatim>\<open>shared.STREAM_FINISHED\<close>, the result of
  \<^verbatim>\<open>json.Marshal\<close> on a chunk, and the test-mode streamer
  \<^verbatim>\<open>streamFilesLoremIpsum\<close>. So is the Go version that the module declares (its
  \<^verbatim>\<open>go.mod\<close> is not in the sources): from Go 1.22 on every iteration of a
  \<^verbatim>\<open>for\<close> statement has its own variable (\<open>loopvar_per_iteration\<close>); before, the
  iterations share one variable, which holds the last path once the loop has ended.
  \<open>errored_counts\<close> selects between the two readings that the spec gives of the
  method \<^verbatim>\<open>DidFinish\<close>, see below.
\<close>

record env =
  GOENV :: string
  loopvar_per_iteration :: bool
  errored_counts :: bool
  STREAM_FINISHED :: string
  json_Marshal :: "PlanChunk \<Rightarrow> error + string"
  streamFilesLoremIpsum :: "server \<Rightarrow> server"

definition FinishReasonFunctionCall :: string where
  "FinishReasonFunctionCall = ''function_call''"

definition newline :: string where
  "newline = [CHR 0x0A]"

subsection \<open>The registries and the plan's methods\<close>

text \<open>
  Modelled from the spec: the methods of \<^verbatim>\<open>types.Proposal\<close> and
  \<^verbatim>\<open>types.Plan\<close> are not in the sources. \<^verbatim>\<open>IsFinished()\<close> reads the
  ``completion flag'' of a proposal. \<^verbatim>\<open>Finish()\<close> and \<^verbatim>\<open>SetErr()\<close> ``mark
  terminal status'': a plan is terminal once one of the two has been called on it.
\<close>

definition IsFinished :: "Proposal \<Rightarrow> bool" where
  "IsFinished p = proposal_Finished p"

definition Finish :: "Plan \<Rightarrow> Plan" where
  "Finish p = p\<lparr>Finished := True\<rparr>"

definition SetErr :: "error \<Rightarrow> Plan \<Rightarrow> Plan" where
  "SetErr e p = p\<lparr>Err := Some e\<rparr>"

definition terminal :: "Plan \<Rightarrow> bool" where
  "terminal p = (Finished p \<or> Err p \<noteq> None)"

text \<open>
  Modelled from the spec: \<^verbatim>\<open>DidFinish\<close> is not in the sources, and the spec
  describes it twice. Section 4.4 has it ``true iff every path in the expected file list
  has an entry in the finished-map''; sections 4.3 (5) and 7 have an errored path count
  as well (``finished-or-errored''). With \<open>errored_counts\<close> an entry in the error map
  counts too; without it only the finished map is read.
\<close>

definition DidFinish :: "env \<Rightarrow> string list \<Rightarrow> Plan \<Rightarrow> bool" where
  "DidFinish e expected p =
     list_all (\<lambda>path. FilesFinished p path \<noteq> None \<or> (errored_counts e \<and> FileErrs p path \<noteq> None))
       expected"

text \<open>
  Modelled from the spec: the registries \<^verbatim>\<open>proposals\<close> and \<^verbatim>\<open>plans\<close> are
  not in the sources. \<^verbatim>\<open>Get\<close> looks an id up and \<^verbatim>\<open>Set\<close> stores a record
  under an id. \<^verbatim>\<open>Update\<close> ``applies a mutation under an exclusive lock and
  returns''; ``once terminal, further per-file mutations for that proposal are rejected
  with \<^verbatim>\<open>SessionAlreadyTerminal\<close>''. The callers in \<^verbatim>\<open>confirmProposal\<close> use
  \<^verbatim>\<open>Update\<close> as a statement, so a rejection is not seen by them: the function they
  pass is not run and the plan stays as it is. \<open>accepting\<close> says that an update of
  the plan of an id runs the function it is passed: the plan is registered and not
  terminal.
\<close>

definition proposals_Get :: "server \<Rightarrow> string \<Rightarrow> Proposal option" where
  "proposals_Get s proposalId = proposals s proposalId"

definition plans_Set :: "string \<Rightarrow> Plan \<Rightarrow> server \<Rightarrow> server" where
  "plans_Set proposalId p s = s\<lparr>plans := (plans s)(proposalId \<mapsto> p)\<rparr>"

definition accepting :: "server \<Rightarrow> string \<Rightarrow> bool" where
  "accepting s proposalId =
     (case plans s proposalId of None \<Rightarrow> False | Some p \<Rightarrow> \<not> terminal p)"

definition plans_Update :: "string \<Rightarrow> (Plan \<Rightarrow> Plan) \<Rightarrow> server \<Rightarrow> server" where
  "plans_Update proposalId f s =
     (case plans s proposalId of
        None \<Rightarrow> s
      | Some p \<Rightarrow>
          if terminal p then s
          else s\<lparr>plans := (plans s)(proposalId \<mapsto> f p)\<rparr>)"

text \<open>Reading a Go map of strings at a missing key gives the empty string.\<close>

definition lookup_str :: "(string \<rightharpoonup> string) \<Rightarrow> string \<Rightarrow> string" where
  "lookup_str m k = (case m k of None \<Rightarrow> [] | Some v \<Rightarrow> v)"

subsection \<open>The callbacks\<close>

definition onStream :: "string \<Rightarrow> error option \<Rightarrow> server \<Rightarrow> server" where
  "onStream content err s = s\<lparr>out := out s @ [(content, err)]\<rparr>"

definition println :: "string \<Rightarrow> server \<Rightarrow> server" where
  "println line s = s\<lparr>stdout := stdout s @ [line]\<rparr>"

text \<open>
  \<^verbatim>\<open>onError\<close> (lines 48 to 55): print, record the error under the file path and as
  the plan's error in one update, pass the error to the stream callback.
\<close>

definition onError :: "string \<Rightarrow> string \<Rightarrow> error \<Rightarrow> server \<Rightarrow> server" where
  "onError proposalId filePath err s =
     onStream [] (Some err)
       (plans_Update proposalId
          (\<lambda>p. SetErr err (p\<lparr>FileErrs := (FileErrs p)(filePath \<mapsto> err)\<rparr>))
          (println (''Error for file '' @ filePath @ '': '' @ err @ newline) s))"

subsection \<open>One worker\<close>

definition set_worker :: "nat \<Rightarrow> (worker \<Rightarrow> worker) \<Rightarrow> server \<Rightarrow> server" where
  "set_worker i f s = s\<lparr>workers := (workers s)[i := f (workers s ! i)]\<rparr>"

definition goto :: "nat \<Rightarrow> pc \<Rightarrow> server \<Rightarrow> server" where
  "goto i l s = set_worker i (\<lambda>w. w\<lparr>w_pc := l\<rparr>) s"

definition fail :: "nat \<Rightarrow> error \<Rightarrow> server \<Rightarrow> server" where
  "fail i err s =
     goto i Stopped (onError (w_proposalId (workers s ! i)) (w_errPath (workers s ! i)) err s)"

text \<open>
  The goroutine up to the return of \<^verbatim>\<open>CreateChatCompletionStream\<close> (lines 58 to
  130): it announces the file (the print of the request messages is left out); on an
  error of the call the worker reports it and returns; otherwise the inner goroutine
  starts with a fresh timer.
\<close>

definition open_stream :: "nat \<Rightarrow> error option \<Rightarrow> server \<Rightarrow> server" where
  "open_stream i r s =
     (let w = workers s ! i;
          s1 = println (''Calling model for file: '' @ w_filePath w)
                 (println (''Getting file from model: '' @ w_filePath w) s)
      in case r of
           Some err \<Rightarrow>
             fail i err
               (println (''Error creating plan file stream for path '' @ w_filePath w @ '': ''
                           @ err @ newline) s1)
         | None \<Rightarrow> set_worker i (\<lambda>w. w\<lparr>w_pc := AtSelect, w_timerC := False\<rparr>) s1)"

text \<open>
  The \<^verbatim>\<open>select\<close> (lines 140 to 148). It has a \<^verbatim>\<open>default\<close> case, so it never
  waits: it returns when the context is done, reports the inactivity timeout when the
  timer's channel holds a value, and otherwise goes on to \<^verbatim>\<open>stream.Recv()\<close>. When
  both channels are ready Go picks one of the two cases; \<open>pickTimer\<close> is that choice.
\<close>

definition select_step :: "nat \<Rightarrow> bool \<Rightarrow> server \<Rightarrow> server" where
  "select_step i pickTimer s =
     (let w = workers s ! i;
          done = ctxDone s (w_ctx w);
          fired = w_timerC w
      in if done \<and> (\<not> fired \<or> \<not> pickTimer) then goto i Stopped s
         else if fired then
           fail i ''stream timeout due to inactivity''
             (set_worker i (\<lambda>w. w\<lparr>w_timerC := False\<rparr>) s)
         else goto i InRecv s)"

text \<open>
  A finish reason (lines 171 to 195): with \<^verbatim>\<open>function_call\<close> the path is marked
  finished and, when the plan did finish, the finished marker is streamed; any other
  reason is an error. The worker returns in each case. The variable \<^verbatim>\<open>finished\<close>
  is set inside the function passed to \<^verbatim>\<open>plans.Update\<close>, so it stays false when
  that function is not run.
\<close>

definition finish_step :: "env \<Rightarrow> nat \<Rightarrow> string \<Rightarrow> server \<Rightarrow> server" where
  "finish_step e i reason s =
     (let w = workers s ! i in
      if reason = FinishReasonFunctionCall then
        (let mark = (\<lambda>plan. plan\<lparr>FilesFinished := (FilesFinished plan)(w_filePath w \<mapsto> True)\<rparr>);
             finished =
               (case plans s (w_proposalId w) of
                  None \<Rightarrow> False
                | Some plan \<Rightarrow> \<not> terminal plan \<and> DidFinish e (w_expected w) (mark plan));
             s1 = plans_Update (w_proposalId w)
                    (\<lambda>plan. if DidFinish e (w_expected w) (mark plan) then Finish (mark plan)
                            else mark plan) s
         in if finished
            then goto i Stopped (onStream (STREAM_FINISHED e) None (println ''Stream finished'' s1))
            else goto i Stopped s1)
      else
        fail i (''Stream finished without 'write' function call. Reason: '' @ reason) s)"

text \<open>
  A content delta (lines 197 to 222): a delta without a function call is logged and
  skipped; otherwise the arguments are appended to the file's content in the plan and
  the chunk is marshalled and streamed.
\<close>

definition delta_step :: "env \<Rightarrow> nat \<Rightarrow> Delta \<Rightarrow> server \<Rightarrow> server" where
  "delta_step e i delta s =
     (let w = workers s ! i in
      case delta_FunctionCall delta of
        None \<Rightarrow>
          goto i AtSelect
            (println (newline @ ''Stream received data not for 'write' function call'') s)
      | Some fc \<Rightarrow>
          (let content = Arguments fc;
               s1 = plans_Update (w_proposalId w)
                      (\<lambda>p. p\<lparr>Files := (Files p)(w_filePath w \<mapsto>
                                 lookup_str (Files p) (w_filePath w) @ content)\<rparr>) s
           in case json_Marshal e \<lparr>Path = w_filePath w, Content = content\<rparr> of
                Inl err \<Rightarrow> fail i (''error marshalling plan chunk: '' @ err) s1
              | Inr chunkJson \<Rightarrow> goto i AtSelect (onStream chunkJson None s1)))"

text \<open>
  \<^verbatim>\<open>stream.Recv()\<close> returns (lines 149 to 223). Without an error the timer is
  stopped, its channel drained if it had fired, and the timer is reset.
\<close>

definition recv_step :: "env \<Rightarrow> nat \<Rightarrow> recv_result \<Rightarrow> server \<Rightarrow> server" where
  "recv_step e i r s =
     (case r of
        RecvErr err \<Rightarrow> fail i (''Stream error: '' @ err) s
      | RecvOk choices \<Rightarrow>
          (let s1 = set_worker i (\<lambda>w. w\<lparr>w_timerC := False\<rparr>) s in
           case choices of
             [] \<Rightarrow> fail i ''Stream error: no choices'' s1
           | choice # _ \<Rightarrow>
               if FinishReason choice \<noteq> [] then finish_step e i (FinishReason choice) s1
               else delta_step e i (choice_Delta choice) s1))"

subsection \<open>The events of the running system\<close>

text \<open>
  The goroutines run interleaved; an event is one of them taking a step, the timer of a
  worker firing, or a context being cancelled. An event that is not enabled (no such
  worker, or the worker is elsewhere) leaves the state as it is.
\<close>

datatype event =
    Open nat "error option"
  | TimerFires nat
  | Select nat bool
  | Recv nat recv_result
  | Cancel nat

definition at :: "server \<Rightarrow> nat \<Rightarrow> pc \<Rightarrow> bool" where
  "at s i l = (i < length (workers s) \<and> w_pc (workers s ! i) = l)"

fun step :: "env \<Rightarrow> event \<Rightarrow> server \<Rightarrow> server" where
  "step e (Open i r) s = (if at s i Starting then open_stream i r s else s)"
| "step e (TimerFires i) s =
     (if at s i AtSelect \<or> at s i InRecv
      then set_worker i (\<lambda>w. w\<lparr>w_timerC := True\<rparr>) s else s)"
| "step e (Select i pickTimer) s = (if at s i AtSelect then select_step i pickTimer s else s)"
| "step e (Recv i r) s = (if at s i InRecv then recv_step e i r s else s)"
| "step e (Cancel c) s = s\<lparr>ctxDone := (ctxDone s)(c := True)\<rparr>"

definition run :: "env \<Rightarrow> event list \<Rightarrow> server \<Rightarrow> server" where
  "run e evs s = foldl (\<lambda>s ev. step e ev s) s evs"

subsection \<open>confirmProposal\<close>

definition new_plan :: "string \<Rightarrow> nat \<Rightarrow> nat \<Rightarrow> Plan" where
  "new_plan proposalId n ctx =
     \<lparr>CancelFn = Some ctx, Finished = False, Err = None,
      ProposalId = proposalId, NumFiles = n,
      Files = Map.empty, FileErrs = Map.empty, FilesFinished = Map.empty\<rparr>"

definition new_worker :: "env \<Rightarrow> string \<Rightarrow> string list \<Rightarrow> nat \<Rightarrow> string \<Rightarrow> worker" where
  "new_worker e proposalId expected ctx filePath =
     \<lparr>w_proposalId = proposalId, w_filePath = filePath,
      w_errPath = (if loopvar_per_iteration e then filePath else last expected),
      w_expected = expected, w_ctx = ctx, w_pc = Starting, w_timerC = False\<rparr>"

definition confirmProposal :: "env \<Rightarrow> string \<Rightarrow> server \<Rightarrow> error option \<times> server" where
  "confirmProposal e proposalId s =
     (if GOENV e = ''test'' then (None, streamFilesLoremIpsum e s)
      else
        case proposals_Get s proposalId of
          None \<Rightarrow> (Some ''proposal not found'', s)
        | Some proposal \<Rightarrow>
            if \<not> IsFinished proposal then (Some ''proposal not finished'', s)
            else
              (let files = desc_Files (proposal_PlanDescription proposal);
                   ctx = nextCtx s;
                   s1 = plans_Set proposalId (new_plan proposalId (length files) ctx)
                          (s\<lparr>nextCtx := Suc ctx\<rparr>)
               in (None, s1\<lparr>workers := workers s1 @ map (new_worker e proposalId files ctx) files\<rparr>)))"

section \<open>Client: the stream handler of Propose\<close>

text \<open>
  The model follows the closure \<^verbatim>\<open>handleStream\<close> of \<^verbatim>\<open>Propose\<close> (client, package
  lib) and the variables of \<^verbatim>\<open>Propose\<close> it reads and writes. Terminal rendering (the
  spinner, the alternate screen, the progress lines, the reply printer) and the
  conversation log are left out; what is written to standard error is kept.

  Modelled from the spec: the states of the stream come from the constants
  \<^verbatim>\<open>shared.STATE_...\<close>, which are not in the sources; the spec gives the enumeration
  ``REPLYING, REVISING, DESCRIBING, BUILDING, FINISHED''. \<open>STATE_OTHER\<close> stands for any
  other state, for which the \<^verbatim>\<open>switch\<close> has no case. \<open>p_State\<close> is what
  \<^verbatim>\<open>params.State.Current()\<close> gives when the handler reads it.
\<close>

datatype phase =
    STATE_REPLYING | STATE_REVISING | STATE_DESCRIBING | STATE_BUILDING | STATE_FINISHED
  | STATE_OTHER string

record OnStreamPlanParams =
  p_Content :: string
  p_State :: phase
  p_Err :: "error option"

record chunk_bufs =
  jsonBuffers :: "string \<rightharpoonup> string"
  numStreamedTokensByPath :: "string \<rightharpoonup> int"
  finishedByPath :: "string \<rightharpoonup> bool"

record client =
  running :: bool
  queue :: "OnStreamPlanParams list"
  fsm_state :: "phase option"
  proposalId :: string
  planStateFile :: "string option"
  replyStarted :: bool
  endedReply :: bool
  reply :: string
  terminalHasPendingUpdate :: bool
  descJson :: string
  desc :: "PlanDescription option"
  streamFinished :: bool
  filesFinished :: bool
  bufs :: chunk_bufs
  done_closed :: bool
  keywatchCancelled :: bool
  stderr :: "string list"

text \<open>
  The channel \<^verbatim>\<open>done\<close> is closed or not (\<open>done_closed\<close>); \<^verbatim>\<open>queue\<close> is the
  content of the channel of capacity one. What the handler calls without the sources
  defining it is a parameter: the two marker constants, \<^verbatim>\<open>json.Unmarshal\<close> on the
  description (it gets the current value of \<^verbatim>\<open>desc\<close> and gives the error and the
  new value; a JSON \<^verbatim>\<open>null\<close> gives no error and a nil description),
  \<^verbatim>\<open>json.Marshal\<close> and \<^verbatim>\<open>os.WriteFile\<close> for the plan state file,
  \<^verbatim>\<open>receiveFileChunk\<close> (it works on the three maps it is passed) and
  \<^verbatim>\<open>writeFilesFromSections\<close>.
\<close>

record client_env =
  STREAM_DESCRIPTION_PHASE :: string
  STREAM_BUILD_PHASE :: string
  json_Unmarshal_desc :: "string \<Rightarrow> PlanDescription option \<Rightarrow> error option \<times> PlanDescription option"
  json_Marshal_planState :: "string \<Rightarrow> error + string"
  os_WriteFile :: "string \<Rightarrow> error option"
  receiveFileChunk :: "string \<Rightarrow> chunk_bufs \<Rightarrow> bool \<times> error option \<times> chunk_bufs"
  writeFilesFromSections :: "(string \<rightharpoonup> bool) \<Rightarrow> error option"

text \<open>
  A call of the handler returns, panics (closing a closed channel, reading a field of a
  nil description) or blocks for ever (sending on the full channel with no receiver).
\<close>

datatype 'a outcome = Ok 'a | Panic string | Blocked

text \<open>\<^verbatim>\<open>onError\<close> of the handler (lines 155 to 160) and \<^verbatim>\<open>endReply\<close> (lines 108 to 126).\<close>

definition close_done :: "client \<Rightarrow> client outcome" where
  "close_done c =
     (if done_closed c then Panic ''close of closed channel''
      else Ok (c\<lparr>done_closed := True\<rparr>))"

definition client_onError :: "error \<Rightarrow> client \<Rightarrow> client outcome" where
  "client_onError err c =
     close_done (c\<lparr>stderr := stderr c @ [''Error: '' @ err], keywatchCancelled := True\<rparr>)"

definition endReply :: "client \<Rightarrow> client" where
  "endReply c = c\<lparr>endedReply := True\<rparr>"

text \<open>The first chunk carries the proposal id (lines 167 to 191).\<close>

definition first_chunk :: "client_env \<Rightarrow> string \<Rightarrow> client \<Rightarrow> client outcome" where
  "first_chunk e content c =
     (if content = [] then client_onError ''proposal id not sent in first chunk'' c
      else
        (let c1 = c\<lparr>proposalId := content\<rparr> in
         case json_Marshal_planState e content of
           Inl err \<Rightarrow> client_onError (''failed to marshal plan state: '' @ err @ newline) c1
         | Inr planStateBytes \<Rightarrow>
             (case os_WriteFile e planStateBytes of
                Some err \<Rightarrow> client_onError (''failed to write plan state: '' @ err @ newline) c1
              | None \<Rightarrow> Ok (c1\<lparr>planStateFile := Some planStateBytes\<rparr>))))"

text \<open>The cases of the \<^verbatim>\<open>switch\<close> (lines 198 to 314).\<close>

definition on_finished :: "client \<Rightarrow> client outcome" where
  "on_finished c =
     (let c1 = (if \<not> endedReply c then endReply c else c);
          c2 = c1\<lparr>streamFinished := True\<rparr>
      in if filesFinished c2 then close_done c2 else Ok c2)"

definition on_describing :: "client_env \<Rightarrow> string \<Rightarrow> client \<Rightarrow> client outcome" where
  "on_describing e content c =
     (if content = STREAM_DESCRIPTION_PHASE e then Ok (endReply c)
      else
        (let c1 = c\<lparr>descJson := content\<rparr> in
         case json_Unmarshal_desc e content (desc c1) of
           (Some err, d) \<Rightarrow>
             client_onError (''error parsing plan description: '' @ err) (c1\<lparr>desc := d\<rparr>)
         | (None, None) \<Rightarrow> Panic ''invalid memory address or nil pointer dereference''
         | (None, Some d) \<Rightarrow>
             if MadePlan d \<and> length (desc_Files d) > 0 then Ok (c1\<lparr>desc := Some d\<rparr>)
             else Ok (c1\<lparr>desc := Some d, filesFinished := True\<rparr>)))"

definition on_building :: "client_env \<Rightarrow> string \<Rightarrow> client \<Rightarrow> client outcome" where
  "on_building e content c =
     (if content = STREAM_BUILD_PHASE e then Ok c
      else
        (case receiveFileChunk e content (bufs c) of
           (wroteFile, Some err, b) \<Rightarrow> client_onError err (c\<lparr>bufs := b\<rparr>)
         | (wroteFile, None, b) \<Rightarrow>
             (let c1 = c\<lparr>bufs := b\<rparr> in
              case desc c1 of
                None \<Rightarrow> Panic ''invalid memory address or nil pointer dereference''
              | Some d \<Rightarrow>
                  (let files = desc_Files d in
                   if wroteFile then
                     (if card (dom (finishedByPath b)) = length files then
                        (case writeFilesFromSections e (finishedByPath b) of
                           Some err \<Rightarrow> client_onError err c1
                         | None \<Rightarrow>
                             (let c2 = c1\<lparr>filesFinished := True\<rparr>
                              in if streamFinished c2 then close_done c2 else Ok c2))
                      else Ok c1)
                   else Ok c1))))"

definition handler_body :: "client_env \<Rightarrow> OnStreamPlanParams \<Rightarrow> client \<Rightarrow> client outcome" where
  "handler_body e params c =
     (let c1 = c\<lparr>fsm_state := Some (p_State params)\<rparr>;
          content = p_Content params
      in case p_Err params of
           Some err \<Rightarrow> client_onError err c1
         | None \<Rightarrow>
             if proposalId c1 = [] then first_chunk e content c1
             else
               (let c2 = (if \<not> replyStarted c1 then c1\<lparr>replyStarted := True\<rparr> else c1) in
                case p_State params of
                  STATE_REPLYING \<Rightarrow>
                    Ok (c2\<lparr>reply := reply c2 @ content, terminalHasPendingUpdate := True\<rparr>)
                | STATE_REVISING \<Rightarrow>
                    Ok (c2\<lparr>reply := reply c2 @ content, terminalHasPendingUpdate := True\<rparr>)
                | STATE_FINISHED \<Rightarrow> on_finished c2
                | STATE_DESCRIBING \<Rightarrow> on_describing e content c2
                | STATE_BUILDING \<Rightarrow> on_building e content c2
                | STATE_OTHER x \<Rightarrow> Ok c2))"

text \<open>
  The body leaves \<^verbatim>\<open>running\<close> and \<^verbatim>\<open>queue\<close> alone; the recursion of the
  deferred function therefore ends: each call takes one item from the channel.
\<close>

lemma close_done_frame: "close_done c = Ok c' \<Longrightarrow> queue c' = queue c \<and> running c' = running c"
  by (auto simp: close_done_def split: if_splits)

lemma client_onError_frame: "client_onError err c = Ok c' \<Longrightarrow> queue c' = queue c \<and> running c' = running c"
  by (auto simp: client_onError_def dest!: close_done_frame)

lemma handler_body_frame:
  "handler_body e params c = Ok c' \<Longrightarrow> queue c' = queue c \<and> running c' = running c"
  by (auto simp: handler_body_def first_chunk_def on_finished_def on_describing_def on_building_def
        endReply_def Let_def
      split: option.splits if_splits sum.splits phase.splits prod.splits bool.splits
      dest!: client_onError_frame close_done_frame)

text \<open>
  \<^verbatim>\<open>handleStream\<close> (lines 136 to 316): the test of \<^verbatim>\<open>running\<close>, the body, and
  the deferred function that takes the next item from the channel or resets
  \<^verbatim>\<open>running\<close>. No statement of the sources sets \<^verbatim>\<open>running\<close> to true.
\<close>

function handleStream :: "client_env \<Rightarrow> OnStreamPlanParams \<Rightarrow> client \<Rightarrow> client outcome" where
  "handleStream e params c =
     (if running c then
        (if length (queue c) < 1 then Ok (c\<lparr>queue := queue c @ [params]\<rparr>) else Blocked)
      else
        (case handler_body e params c of
           Ok c' \<Rightarrow>
             (case queue c' of
                [] \<Rightarrow> Ok (c'\<lparr>running := False\<rparr>)
              | next_params # rest \<Rightarrow> handleStream e next_params (c'\<lparr>queue := rest\<rparr>))
         | Panic m \<Rightarrow> Panic m
         | Blocked \<Rightarrow> Blocked))"
  by pat_completeness auto
termination
proof (relation "measure (\<lambda>(e, params, c). length (queue c))")
  show "wf (measure (\<lambda>(e, params, c). length (queue c)))" by simp
next
  fix e params c c' next_params rest
  assume "\<not> running c" "handler_body e params c = Ok c'" "queue c' = next_params # rest"
  then show "((e, next_params, c'\<lparr>queue := rest\<rparr>), (e, params, c)) \<in> measure (\<lambda>(e, params, c). length (queue c))"
    using handler_body_frame[of e params c c'] by simp
qed

declare handleStream.simps [simp del]

subsection \<open>The loop that waits for the end\<close>

text \<open>
  After \<^verbatim>\<open>Api.Propose\<close> has returned, \<^verbatim>\<open>Propose\<close> waits in a loop (lines 347 to
  364) on a \<^verbatim>\<open>select\<close> with three cases: a key from the key watcher, the channel
  \<^verbatim>\<open>done\<close>, an error of the key watcher. The list given to the model says which
  case each round of the loop takes; for a key it carries what \<^verbatim>\<open>handleKeyPress\<close>
  (not in the sources) returns. Nothing is ever sent on \<^verbatim>\<open>done\<close>, so its case is
  taken only once the channel is closed. The result is what \<^verbatim>\<open>Propose\<close> returns:
  an error, or \<^verbatim>\<open>nil\<close> after \<^verbatim>\<open>break Loop\<close>; with no case left to take the
  \<^verbatim>\<open>select\<close> waits.
\<close>

datatype ready = KeyReceived "error option" | DoneReceived | ErrReceived error

fun Propose_loop :: "ready list \<Rightarrow> client \<Rightarrow> error option outcome \<times> client" where
  "Propose_loop [] c = (Blocked, c)"
| "Propose_loop (KeyReceived None # rs) c = Propose_loop rs c"
| "Propose_loop (KeyReceived (Some err) # rs) c = (Ok (Some err), c\<lparr>keywatchCancelled := True\<rparr>)"
| "Propose_loop (DoneReceived # rs) c =
     (if done_closed c then (Ok None, c\<lparr>keywatchCancelled := True\<rparr>) else Propose_loop rs c)"
| "Propose_loop (ErrReceived err # rs) c = (Ok (Some err), c\<lparr>keywatchCancelled := True\<rparr>)"

subsection \<open>Calls of the handler that overlap\<close>

text \<open>
  Several calls of \<^verbatim>\<open>handleStream\<close> are in progress at once when the producer
  delivers chunks from more than one goroutine. A call is at its entry, blocked sending to
  the channel, in the body, in the deferred function, or has returned; one step moves
  one call.
\<close>

datatype call =
    Entry OnStreamPlanParams
  | Sending OnStreamPlanParams
  | InBody OnStreamPlanParams
  | InDefer
  | Returned

record sys =
  shared :: client
  calls :: "call list"
  crashed :: "string option"

definition set_call :: "nat \<Rightarrow> call \<Rightarrow> sys \<Rightarrow> sys" where
  "set_call i k s = s\<lparr>calls := (calls s)[i := k]\<rparr>"

definition send_queue :: "nat \<Rightarrow> OnStreamPlanParams \<Rightarrow> sys \<Rightarrow> sys" where
  "send_queue i params s =
     (if length (queue (shared s)) < 1
      then set_call i Returned (s\<lparr>shared := (shared s)\<lparr>queue := queue (shared s) @ [params]\<rparr>\<rparr>)
      else set_call i (Sending params) s)"

definition call_step :: "client_env \<Rightarrow> nat \<Rightarrow> sys \<Rightarrow> sys" where
  "call_step e i s =
     (if crashed s \<noteq> None \<or> \<not> i < length (calls s) then s
      else
        case calls s ! i of
          Entry params \<Rightarrow>
            if running (shared s) then send_queue i params s else set_call i (InBody params) s
        | Sending params \<Rightarrow> send_queue i params s
        | InBody params \<Rightarrow>
            (case handler_body e params (shared s) of
               Ok c' \<Rightarrow> set_call i InDefer (s\<lparr>shared := c'\<rparr>)
             | Panic m \<Rightarrow> s\<lparr>crashed := Some m\<rparr>
             | Blocked \<Rightarrow> s)
        | InDefer \<Rightarrow>
            (case queue (shared s) of
               [] \<Rightarrow> set_call i Returned (s\<lparr>shared := (shared s)\<lparr>running := False\<rparr>\<rparr>)
             | next_params # rest \<Rightarrow>
                 set_call i (Entry next_params) (s\<lparr>shared := (shared s)\<lparr>queue := rest\<rparr>\<rparr>))
        | Returned \<Rightarrow> s)"

definition schedule :: "client_env \<Rightarrow> nat list \<Rightarrow> sys \<Rightarrow> sys" where
  "schedule e order s = foldl (\<lambda>s i. call_step e i s) s order"

fun in_body :: "call \<Rightarrow> bool" where
  "in_body (InBody params) = True"
| "in_body k = False"

definition active :: "sys \<Rightarrow> nat" where
  "active s = length (filter in_body (calls s))"

section \<open>The chunk codec\<close>

text \<open>
  The server sends a chunk as \<^verbatim>\<open>json.Marshal(chunk)\<close> (line 217). The encoder below
  follows \<^verbatim>\<open>encoding/json\<close> and \<^verbatim>\<open>unicode/utf8\<close> of the Go standard library: a
  Go string is a sequence of bytes; bytes below 0x80 are written as they are or escaped
  (the quote, the backslash, control characters, and \<^verbatim>\<open><\<close>, \<^verbatim>\<open>>\<close>, \<^verbatim>\<open>&\<close>);
  a well-formed UTF-8 sequence is copied, except U+2028 and U+2029, which are escaped;
  a byte that starts no well-formed sequence is replaced by the escape of U+FFFD.
  \<open>shortBF\<close> says whether backspace and form feed get their short escapes (Go 1.22
  and later) or the six-character form.
\<close>

definition RuneError :: nat where
  "RuneError = 0xFFFD"

definition byte :: "char \<Rightarrow> nat" where
  "byte c = of_char c"

text \<open>
  \<^verbatim>\<open>utf8.DecodeRuneInString\<close>: the rune and its width; (\<^verbatim>\<open>RuneError\<close>, 1) where the
  bytes are not a well-formed sequence. \<open>accept\<close> gives, for a leading byte, the length
  of the sequence and the range of the second byte.
\<close>

definition accept :: "nat \<Rightarrow> (nat \<times> nat \<times> nat) option" where
  "accept s0 =
     (if 0xC2 \<le> s0 \<and> s0 \<le> 0xDF then Some (2, 0x80, 0xBF)
      else if s0 = 0xE0 then Some (3, 0xA0, 0xBF)
      else if 0xE1 \<le> s0 \<and> s0 \<le> 0xEC then Some (3, 0x80, 0xBF)
      else if s0 = 0xED then Some (3, 0x80, 0x9F)
      else if 0xEE \<le> s0 \<and> s0 \<le> 0xEF then Some (3, 0x80, 0xBF)
      else if s0 = 0xF0 then Some (4, 0x90, 0xBF)
      else if 0xF1 \<le> s0 \<and> s0 \<le> 0xF3 then Some (4, 0x80, 0xBF)
      else if s0 = 0xF4 then Some (4, 0x80, 0x8F)
      else None)"

fun DecodeRune :: "string \<Rightarrow> nat \<times> nat" where
  "DecodeRune [] = (RuneError, 0)"
| "DecodeRune (c0 # r) =
     (if byte c0 < 0x80 then (byte c0, 1)
      else
        case accept (byte c0) of
          None \<Rightarrow> (RuneError, 1)
        | Some (sz, lo, hi) \<Rightarrow>
            if Suc (length r) < sz then (RuneError, 1)
            else
              (case r of
                 [] \<Rightarrow> (RuneError, 1)
               | c1 # r1 \<Rightarrow>
                   if byte c1 < lo \<or> hi < byte c1 then (RuneError, 1)
                   else if sz \<le> 2 then ((byte c0 mod 32) * 64 + byte c1 mod 64, 2)
                   else
                     (case r1 of
                        [] \<Rightarrow> (RuneError, 1)
                      | c2 # r2 \<Rightarrow>
                          if byte c2 < 0x80 \<or> 0xBF < byte c2 then (RuneError, 1)
                          else if sz \<le> 3
                          then ((byte c0 mod 16) * 4096 + (byte c1 mod 64) * 64 + byte c2 mod 64, 3)
                          else
                            (case r2 of
                               [] \<Rightarrow> (RuneError, 1)
                             | c3 # r3 \<Rightarrow>
                                 if byte c3 < 0x80 \<or> 0xBF < byte c3 then (RuneError, 1)
                                 else ((byte c0 mod 8) * 262144 + (byte c1 mod 64) * 4096
                                         + (byte c2 mod 64) * 64 + byte c3 mod 64, 4)))))"

text \<open>\<^verbatim>\<open>utf8.EncodeRune\<close>: surrogates and values past U+10FFFF are written as U+FFFD.\<close>

definition enc3 :: "nat \<Rightarrow> string" where
  "enc3 r = [char_of (0xE0 + r div 4096), char_of (0x80 + (r div 64) mod 64), char_of (0x80 + r mod 64)]"

definition EncodeRune :: "nat \<Rightarrow> string" where
  "EncodeRune r =
     (if r \<le> 0x7F then [char_of r]
      else if r \<le> 0x7FF then [char_of (0xC0 + r div 64), char_of (0x80 + r mod 64)]
      else if r > 0x10FFFF \<or> (0xD800 \<le> r \<and> r \<le> 0xDFFF) then enc3 RuneError
      else if r \<le> 0xFFFF then enc3 r
      else [char_of (0xF0 + r div 262144), char_of (0x80 + (r div 4096) mod 64),
            char_of (0x80 + (r div 64) mod 64), char_of (0x80 + r mod 64)])"

text \<open>\<^verbatim>\<open>appendString\<close> of the encoder, with HTML escaping as \<^verbatim>\<open>json.Marshal\<close> sets it.\<close>

definition hex :: "nat \<Rightarrow> char" where
  "hex n = ''0123456789abcdef'' ! n"

definition backslash :: char where
  "backslash = CHR 0x5C"

definition dquote :: char where
  "dquote = CHR 0x22"

definition htmlSafe :: "nat \<Rightarrow> bool" where
  "htmlSafe b = (0x20 \<le> b \<and> b < 0x80 \<and> b \<noteq> 0x22 \<and> b \<noteq> 0x26 \<and> b \<noteq> 0x3C \<and> b \<noteq> 0x3E \<and> b \<noteq> 0x5C)"

definition escape_ascii :: "bool \<Rightarrow> char \<Rightarrow> string" where
  "escape_ascii shortBF c =
     (if htmlSafe (byte c) then [c]
      else if byte c = 0x5C \<or> byte c = 0x22 then [backslash, c]
      else if shortBF \<and> byte c = 0x08 then [backslash, CHR ''b'']
      else if shortBF \<and> byte c = 0x0C then [backslash, CHR ''f'']
      else if byte c = 0x0A then [backslash, CHR ''n'']
      else if byte c = 0x0D then [backslash, CHR ''r'']
      else if byte c = 0x09 then [backslash, CHR ''t'']
      else [backslash, CHR ''u'', CHR ''0'', CHR ''0'', hex (byte c div 16), hex (byte c mod 16)])"

fun appendString :: "bool \<Rightarrow> string \<Rightarrow> string" where
  "appendString shortBF [] = []"
| "appendString shortBF (c # r) =
     (if byte c < 0x80 then escape_ascii shortBF c @ appendString shortBF r
      else
        case DecodeRune (c # r) of
          (rune, width) \<Rightarrow>
            if rune = RuneError \<and> width = 1
            then backslash # ''ufffd'' @ appendString shortBF r
            else if rune = 0x2028 \<or> rune = 0x2029
            then backslash # ''u202'' @ [hex (rune mod 16)] @ appendString shortBF (drop (width - 1) r)
            else take width (c # r) @ appendString shortBF (drop (width - 1) r))"

text \<open>\<^verbatim>\<open>utf8.ValidString\<close>: no position decodes to (\<^verbatim>\<open>RuneError\<close>, 1).\<close>

fun ValidString :: "string \<Rightarrow> bool" where
  "ValidString [] = True"
| "ValidString (c # r) =
     (case DecodeRune (c # r) of
        (rune, width) \<Rightarrow> \<not> (rune = RuneError \<and> width = 1) \<and> ValidString (drop (width - 1) r))"

text \<open>
  Modelled from the spec: the type \<^verbatim>\<open>shared.PlanChunk\<close> (with its field tags) and the
  side that decodes a chunk (\<^verbatim>\<open>receiveFileChunk\<close> of the client) are not in the
  sources. The spec gives the wire form as ``build-phase chunk (JSON: {path: string,
  content: string})'' and says that ``decoding fails with MalformedChunk on structurally
  invalid payloads''. The encoder writes that object, the fields in the order of the
  struct literal of lines 211 to 214; \<open>decode_PlanChunk\<close> reads it back, with
  \<open>None\<close> for \<^verbatim>\<open>MalformedChunk\<close>, its strings unquoted as \<^verbatim>\<open>encoding/json\<close>
  unquotes a string literal (\<open>unquote\<close> gives the string and the text after the
  closing quote).
\<close>

definition quote :: "bool \<Rightarrow> string \<Rightarrow> string" where
  "quote shortBF s = dquote # appendString shortBF s @ [dquote]"

definition json_Marshal_PlanChunk :: "bool \<Rightarrow> PlanChunk \<Rightarrow> error + string" where
  "json_Marshal_PlanChunk shortBF ch =
     Inr (''{'' @ dquote # ''path'' @ [dquote, CHR '':''] @ quote shortBF (Path ch)
          @ '','' @ dquote # ''content'' @ [dquote, CHR '':''] @ quote shortBF (Content ch)
          @ ''}'')"

definition hexval :: "char \<Rightarrow> nat option" where
  "hexval c =
     (if 0x30 \<le> byte c \<and> byte c \<le> 0x39 then Some (byte c - 0x30)
      else if 0x61 \<le> byte c \<and> byte c \<le> 0x66 then Some (byte c - 0x61 + 10)
      else if 0x41 \<le> byte c \<and> byte c \<le> 0x46 then Some (byte c - 0x41 + 10)
      else None)"

fun getu4 :: "string \<Rightarrow> nat option" where
  "getu4 (b # u # h1 # h2 # h3 # h4 # r) =
     (if byte b = 0x5C \<and> byte u = 0x75 then
        (case (hexval h1, hexval h2, hexval h3, hexval h4) of
           (Some d1, Some d2, Some d3, Some d4) \<Rightarrow> Some (((d1 * 16 + d2) * 16 + d3) * 16 + d4)
         | _ \<Rightarrow> None)
      else None)"
| "getu4 s = None"

definition IsSurrogate :: "nat \<Rightarrow> bool" where
  "IsSurrogate r = (0xD800 \<le> r \<and> r < 0xE000)"

definition utf16_DecodeRune :: "nat \<Rightarrow> nat option \<Rightarrow> nat" where
  "utf16_DecodeRune r1 r2 =
     (case r2 of
        None \<Rightarrow> RuneError
      | Some r2 \<Rightarrow>
          if 0xD800 \<le> r1 \<and> r1 < 0xDC00 \<and> 0xDC00 \<le> r2 \<and> r2 < 0xE000
          then (r1 - 0xD800) * 1024 + (r2 - 0xDC00) + 0x10000
          else RuneError)"

definition prepend :: "string \<Rightarrow> (string \<times> string) option \<Rightarrow> (string \<times> string) option" where
  "prepend bs r = map_option (\<lambda>(d, rest). (bs @ d, rest)) r"

definition unescape :: "char \<Rightarrow> char option" where
  "unescape e =
     (if byte e = 0x22 \<or> byte e = 0x5C \<or> byte e = 0x2F then Some e
      else if e = CHR ''b'' then Some (CHR 0x08)
      else if e = CHR ''f'' then Some (CHR 0x0C)
      else if e = CHR ''n'' then Some (CHR 0x0A)
      else if e = CHR ''r'' then Some (CHR 0x0D)
      else if e = CHR ''t'' then Some (CHR 0x09)
      else None)"

fun unquote :: "string \<Rightarrow> (string \<times> string) option" where
  "unquote [] = None"
| "unquote (c # r) =
     (if byte c = 0x5C then
        (case r of
           [] \<Rightarrow> None
         | e # r' \<Rightarrow>
             if e = CHR ''u'' then
               (case getu4 (c # r) of
                  None \<Rightarrow> None
                | Some rr \<Rightarrow>
                    if IsSurrogate rr then
                      (if utf16_DecodeRune rr (getu4 (drop 5 r)) \<noteq> RuneError
                       then prepend (EncodeRune (utf16_DecodeRune rr (getu4 (drop 5 r))))
                              (unquote (drop 11 r))
                       else prepend (EncodeRune RuneError) (unquote (drop 5 r)))
                    else prepend (EncodeRune rr) (unquote (drop 5 r)))
             else
               (case unescape e of
                  None \<Rightarrow> None
                | Some ch \<Rightarrow> prepend [ch] (unquote r')))
      else if byte c = 0x22 then Some ([], r)
      else if byte c < 0x20 then None
      else if byte c < 0x80 then prepend [c] (unquote r)
      else
        case DecodeRune (c # r) of
          (rr, width) \<Rightarrow> prepend (EncodeRune rr) (unquote (drop (width - 1) r)))"

fun strip_prefix :: "string \<Rightarrow> string \<Rightarrow> string option" where
  "strip_prefix [] s = Some s"
| "strip_prefix (p # ps) [] = None"
| "strip_prefix (p # ps) (c # cs) = (if p = c then strip_prefix ps cs else None)"

definition decode_PlanChunk :: "string \<Rightarrow> PlanChunk option" where
  "decode_PlanChunk w =
     (case strip_prefix (''{'' @ dquote # ''path'' @ [dquote, CHR '':'', dquote]) w of
        None \<Rightarrow> None
      | Some w1 \<Rightarrow>
          (case unquote w1 of
             None \<Rightarrow> None
           | Some (p, w2) \<Rightarrow>
               (case strip_prefix ('','' @ dquote # ''content'' @ [dquote, CHR '':'', dquote]) w2 of
                  None \<Rightarrow> None
                | Some w3 \<Rightarrow>
                    (case unquote w3 of
                       None \<Rightarrow> None
                     | Some (c, w4) \<Rightarrow>
                         if w4 = ''}'' then Some \<lparr>Path = p, Content = c\<rparr> else None))))"

definition wire_text :: "string \<Rightarrow> string \<Rightarrow> string" where
  "wire_text p c =
     ''{'' @ [dquote] @ ''path'' @ [dquote] @ '':'' @ [dquote] @ p @ [dquote] @ '','' @
     [dquote] @ ''content'' @ [dquote] @ '':'' @ [dquote] @ c @ [dquote] @ ''}''"

section \<open>What is observed of a run\<close>

text \<open>
  A step emits a content chunk for (proposal id, path) exactly where lines 211 to 214
  build one: the step is a worker's \<^verbatim>\<open>stream.Recv()\<close> returning a response whose
  first choice has no finish reason and carries a function call.
\<close>

definition chunk_of :: "event \<Rightarrow> server \<Rightarrow> (string \<times> string \<times> string) option" where
  "chunk_of ev s =
     (case ev of
        Recv i (RecvOk (choice # rest)) \<Rightarrow>
          if at s i InRecv \<and> FinishReason choice = [] then
            (case delta_FunctionCall (choice_Delta choice) of
               None \<Rightarrow> None
             | Some fc \<Rightarrow>
                 Some (w_proposalId (workers s ! i), w_filePath (workers s ! i), Arguments fc))
          else None
      | _ \<Rightarrow> None)"

fun chunks :: "env \<Rightarrow> event list \<Rightarrow> server \<Rightarrow> (string \<times> string \<times> string) list" where
  "chunks e [] s = []"
| "chunks e (ev # evs) s =
     (case chunk_of ev s of None \<Rightarrow> [] | Some c \<Rightarrow> [c]) @ chunks e evs (step e ev s)"

text \<open>
  Of the chunks emitted in a run, those emitted while the plan of their proposal accepted
  updates: for them the update of line 207 runs the function it is passed.
\<close>

fun appended :: "env \<Rightarrow> event list \<Rightarrow> server \<Rightarrow> (string \<times> string \<times> string) list" where
  "appended e [] s = []"
| "appended e (ev # evs) s =
     (case chunk_of ev s of
        None \<Rightarrow> []
      | Some c \<Rightarrow> if accepting s (fst c) then [c] else []) @ appended e evs (step e ev s)"

definition content_for :: "string \<Rightarrow> string \<Rightarrow> (string \<times> string \<times> string) list \<Rightarrow> string" where
  "content_for pid path cs =
     concat (map (\<lambda>c. snd (snd c))
               (filter (\<lambda>c. fst c = pid \<and> fst (snd c) = path) cs))"

text \<open>
  The content accumulated for a path in the plan of an id (empty when there is none), and
  the plan itself.
\<close>

definition registered :: "server \<Rightarrow> string \<Rightarrow> bool" where
  "registered s pid = (plans s pid \<noteq> None)"

definition accumulated :: "server \<Rightarrow> string \<Rightarrow> string \<Rightarrow> string" where
  "accumulated s pid path =
     (case plans s pid of None \<Rightarrow> [] | Some p \<Rightarrow> lookup_str (Files p) path)"

definition plan_of :: "server \<Rightarrow> string \<Rightarrow> Plan" where
  "plan_of s pid =
     (case plans s pid of Some p \<Rightarrow> p | None \<Rightarrow> new_plan pid 0 0)"

text \<open>
  Of the calls of the client's handler: a state in which \<^verbatim>\<open>running\<close> is false, the
  channel is empty and no call is blocked sending to it.
\<close>

fun sending :: "call \<Rightarrow> bool" where
  "sending (Sending params) = True"
| "sending k = False"

definition never_queued :: "sys \<Rightarrow> bool" where
  "never_queued s =
     (running (shared s) = False \<and> queue (shared s) = [] \<and> list_ex sending (calls s) = False)"

section \<open>Example data\<close>

text \<open>
  A server with one proposal \<open>p1\<close>, an environment for it, and responses of the
  model: a delta of the \<^verbatim>\<open>write\<close> call, a delta of plain text, a finish reason.
\<close>

definition demo_env :: "string \<Rightarrow> env" where
  "demo_env goEnv =
     \<lparr>GOENV = goEnv, loopvar_per_iteration = False, errored_counts = False,
      STREAM_FINISHED = ''@@FINISHED@@'',
      json_Marshal = json_Marshal_PlanChunk True,
      streamFilesLoremIpsum = id\<rparr>"

definition demo_proposal :: "bool \<Rightarrow> string list \<Rightarrow> Proposal" where
  "demo_proposal fin files =
     \<lparr>proposal_Finished = fin, proposal_Content = ''reply'',
      proposal_PlanDescription = \<lparr>MadePlan = True, desc_Files = files\<rparr>\<rparr>"

definition empty_server :: server where
  "empty_server =
     \<lparr>proposals = Map.empty, plans = Map.empty, ctxDone = (\<lambda>c. False), nextCtx = 0,
      workers = [], out = [], stdout = []\<rparr>"

definition demo_server :: "bool \<Rightarrow> string list \<Rightarrow> server" where
  "demo_server fin files = empty_server\<lparr>proposals := [''p1'' \<mapsto> demo_proposal fin files]\<rparr>"

definition started :: "string list \<Rightarrow> server" where
  "started files = snd (confirmProposal (demo_env ''production'') ''p1'' (demo_server True files))"

definition write_delta :: "string \<Rightarrow> recv_result" where
  "write_delta content =
     RecvOk [\<lparr>FinishReason = [],
              choice_Delta = \<lparr>delta_Content = [],
                delta_FunctionCall = Some \<lparr>Name = ''write'', Arguments = content\<rparr>\<rparr>\<rparr>]"

definition text_choice :: "string \<Rightarrow> Choice" where
  "text_choice content =
     \<lparr>FinishReason = [],
      choice_Delta = \<lparr>delta_Content = content, delta_FunctionCall = None\<rparr>\<rparr>"

definition finish_with :: "string \<Rightarrow> recv_result" where
  "finish_with reason =
     RecvOk [\<lparr>FinishReason = reason,
              choice_Delta = \<lparr>delta_Content = [], delta_FunctionCall = None\<rparr>\<rparr>]"

definition call_delta :: "string \<Rightarrow> string \<Rightarrow> recv_result" where
  "call_delta name content =
     RecvOk [\<lparr>FinishReason = [],
              choice_Delta = \<lparr>delta_Content = [],
                delta_FunctionCall = Some \<lparr>Name = name, Arguments = content\<rparr>\<rparr>\<rparr>]"

text \<open>
  Runs of the workers of \<open>a.txt\<close> (worker 0) and \<open>b.txt\<close> (worker 1): three
  chunks for \<open>a.txt\<close>; the same with both files finishing after them; \<open>a.txt\<close>
  finishes and then the stream of \<open>b.txt\<close> fails; the stream of \<open>b.txt\<close> fails
  and then a chunk for \<open>a.txt\<close> arrives.
\<close>

definition abc_trace :: "event list" where
  "abc_trace =
     [Open 0 None, Open 1 None,
      Select 0 False, Recv 0 (write_delta ''a''),
      Select 1 False, Recv 1 (write_delta ''x''),
      Select 0 False, Recv 0 (write_delta ''b''),
      Select 0 False, Recv 0 (write_delta ''c'')]"

definition complete_trace :: "event list" where
  "complete_trace =
     abc_trace @
     [Select 0 False, Recv 0 (finish_with FinishReasonFunctionCall),
      Select 1 False, Recv 1 (finish_with FinishReasonFunctionCall)]"


definition chunk_after_error_trace :: "event list" where
  "chunk_after_error_trace =
     [Open 0 None, Open 1 None,
      Select 1 False, Recv 1 (RecvErr ''connection reset''),
      Select 0 False, Recv 0 (write_delta ''a'')]"

definition late_chunk_trace :: "event list" where
  "late_chunk_trace = [Open 0 None, Select 0 False, TimerFires 0, Recv 0 (write_delta ''x'')]"

text \<open>
  A client as \<^verbatim>\<open>Propose\<close> declares its variables, an environment for it (a
  description that declares no plan, one that plans \<open>a.txt\<close>, anything else does not
  parse; the chunk \<open>end of a.txt\<close> completes that file), and a chunk without error.
\<close>

definition client0 :: client where
  "client0 =
     \<lparr>running = False, queue = [], fsm_state = None, proposalId = [], planStateFile = None,
      replyStarted = False, endedReply = False, reply = [], terminalHasPendingUpdate = False,
      descJson = [], desc = None, streamFinished = False, filesFinished = False,
      bufs = \<lparr>jsonBuffers = Map.empty, numStreamedTokensByPath = Map.empty,
               finishedByPath = Map.empty\<rparr>,
      done_closed = False, keywatchCancelled = False, stderr = []\<rparr>"

definition demo_client_env :: client_env where
  "demo_client_env =
     \<lparr>STREAM_DESCRIPTION_PHASE = ''@@DESCRIPTION@@'',
      STREAM_BUILD_PHASE = ''@@BUILD@@'',
      json_Unmarshal_desc =
        (\<lambda>content d.
           if content = ''no plan'' then (None, Some \<lparr>MadePlan = False, desc_Files = []\<rparr>)
           else if content = ''plan for a.txt''
           then (None, Some \<lparr>MadePlan = True, desc_Files = [''a.txt'']\<rparr>)
           else (Some ''invalid character'', d)),
      json_Marshal_planState = (\<lambda>pid. Inr pid),
      os_WriteFile = (\<lambda>bytes. None),
      receiveFileChunk =
        (\<lambda>content b.
           if content = ''end of a.txt''
           then (True, None, b\<lparr>finishedByPath := (finishedByPath b)(''a.txt'' \<mapsto> True)\<rparr>)
           else (False, None, b)),
      writeFilesFromSections = (\<lambda>finished. None)\<rparr>"

definition chunk :: "phase \<Rightarrow> string \<Rightarrow> OnStreamPlanParams" where
  "chunk st content = \<lparr>p_Content = content, p_State = st, p_Err = None\<rparr>"

text \<open>The client after the id \<open>p1\<close> and a description payload that does not parse.\<close>

definition after_malformed :: client where
  "after_malformed =
     client0\<lparr>fsm_state := Some STATE_DESCRIBING, proposalId := ''p1'', replyStarted := True,
       descJson := ''{oops'', done_closed := True, keywatchCancelled := True,
       stderr := [''Error: error parsing plan description: invalid character'']\<rparr>"

definition described :: "string \<Rightarrow> client" where
  "described d = client0\<lparr>proposalId := ''p1'', replyStarted := True, endedReply := True,
     descJson := d, desc := snd (json_Unmarshal_desc demo_client_env d None)\<rparr>"

definition two_calls :: sys where
  "two_calls =
     \<lparr>shared = client0,
      calls = [Entry (chunk STATE_REPLYING ''p1''), Entry (chunk STATE_REPLYING ''Hello'')],
      crashed = None\<rparr>"

section \<open>Properties of the server\<close>

subsection \<open>Evaluating the model\<close>

lemma some_bool: "(\<exists>b::bool. b) = True" "(\<forall>b::bool. \<not> b) = False"
  by auto

lemmas server_defs =
  some_bool confirmProposal_def proposals_Get_def IsFinished_def plans_Set_def new_plan_def
  new_worker_def run_def at_def open_stream_def select_step_def recv_step_def finish_step_def
  delta_step_def fail_def onError_def goto_def set_worker_def plans_Update_def onStream_def
  println_def lookup_str_def SetErr_def Finish_def DidFinish_def terminal_def
  FinishReasonFunctionCall_def newline_def Let_def

lemmas demo_defs =
  demo_env_def demo_proposal_def demo_server_def empty_server_def started_def write_delta_def
  text_choice_def finish_with_def json_Marshal_PlanChunk_def

lemmas codec_defs =
  json_Marshal_PlanChunk_def quote_def decode_PlanChunk_def wire_text_def byte_def
  escape_ascii_def htmlSafe_def accept_def RuneError_def hex_def hexval_def backslash_def
  dquote_def unescape_def prepend_def IsSurrogate_def EncodeRune_def enc3_def

subsection \<open>What a step does to the accumulated content\<close>

lemma accumulated_frame [simp]:
  "accumulated (println l s) q p = accumulated s q p"
  "accumulated (onStream c err s) q p = accumulated s q p"
  "accumulated (set_worker i f s) q p = accumulated s q p"
  "accumulated (goto i l' s) q p = accumulated s q p"
  by (simp_all add: accumulated_def println_def onStream_def set_worker_def goto_def)

lemma registered_frame [simp]:
  "registered (println l s) q = registered s q"
  "registered (onStream c err s) q = registered s q"
  "registered (set_worker i f s) q = registered s q"
  "registered (goto i l' s) q = registered s q"
  by (simp_all add: registered_def println_def onStream_def set_worker_def goto_def)

lemma accepting_frame [simp]:
  "accepting (println l s) q = accepting s q"
  "accepting (onStream c err s) q = accepting s q"
  "accepting (set_worker i f s) q = accepting s q"
  "accepting (goto i l' s) q = accepting s q"
  by (simp_all add: accepting_def println_def onStream_def set_worker_def goto_def)

lemma plans_Update_apply:
  "plans (plans_Update k f s) q =
     (case plans s q of
        None \<Rightarrow> None
      | Some pl \<Rightarrow> Some (if q = k \<and> \<not> terminal pl then f pl else pl))"
  by (auto simp: plans_Update_def split: option.splits)

lemma registered_Update [simp]: "registered (plans_Update k f s) q = registered s q"
  by (simp add: registered_def plans_Update_apply split: option.splits)

text \<open>A plan that is terminal stays so: no update brings it back.\<close>

lemma accepting_Update: "accepting (plans_Update k f s) q \<Longrightarrow> accepting s q"
  by (auto simp: accepting_def plans_Update_apply split: option.splits if_splits)

lemma accumulated_Update_frame:
  "(\<And>pl. Files (f pl) = Files pl) \<Longrightarrow>
     accumulated (plans_Update k f s) q p = accumulated s q p"
  by (simp add: accumulated_def plans_Update_apply split: option.splits)

lemma accumulated_append:
  "accumulated
     (plans_Update k (\<lambda>pl. pl\<lparr>Files := (Files pl)(path \<mapsto> lookup_str (Files pl) path @ c)\<rparr>) s) q p =
     accumulated s q p @ (if accepting s q \<and> k = q \<and> path = p then c else [])"
  by (auto simp: accumulated_def plans_Update_apply lookup_str_def accepting_def
           split: option.splits)

lemma accumulated_fail [simp]: "accumulated (fail i err s) q p = accumulated s q p"
  by (simp add: fail_def onError_def accumulated_Update_frame SetErr_def)

lemma registered_fail [simp]: "registered (fail i err s) q = registered s q"
  by (simp add: fail_def onError_def)

lemma accepting_fail: "accepting (fail i err s) q \<Longrightarrow> accepting s q"
  by (auto simp: fail_def onError_def dest: accepting_Update)

lemma accumulated_finish_step [simp]:
  "accumulated (finish_step e i reason s) q p = accumulated s q p"
  by (simp add: finish_step_def Let_def accumulated_Update_frame Finish_def)

lemma registered_finish_step [simp]: "registered (finish_step e i reason s) q = registered s q"
  by (simp add: finish_step_def Let_def)

lemma accepting_finish_step: "accepting (finish_step e i reason s) q \<Longrightarrow> accepting s q"
  by (auto simp: finish_step_def Let_def split: if_splits dest: accepting_Update accepting_fail)

lemma accumulated_delta_step:
  "accumulated (delta_step e i d s) q p =
     accumulated s q p @
       (case delta_FunctionCall d of
          None \<Rightarrow> []
        | Some fc \<Rightarrow>
            if accepting s q \<and> w_proposalId (workers s ! i) = q \<and> w_filePath (workers s ! i) = p
            then Arguments fc else [])"
  by (simp add: delta_step_def Let_def accumulated_append split: option.splits sum.splits)

lemma registered_delta_step [simp]: "registered (delta_step e i d s) q = registered s q"
  by (simp add: delta_step_def Let_def split: option.splits sum.splits)

lemma accepting_delta_step: "accepting (delta_step e i d s) q \<Longrightarrow> accepting s q"
  by (auto simp: delta_step_def Let_def split: option.splits sum.splits
           dest: accepting_Update accepting_fail)

lemma timer_reset_keeps_closure [simp]:
  "i < length (workers s) \<Longrightarrow>
     w_proposalId (workers (set_worker i (\<lambda>w. w\<lparr>w_timerC := b\<rparr>) s) ! i) =
       w_proposalId (workers s ! i)"
  "i < length (workers s) \<Longrightarrow>
     w_filePath (workers (set_worker i (\<lambda>w. w\<lparr>w_timerC := b\<rparr>) s) ! i) =
       w_filePath (workers s ! i)"
  by (simp_all add: set_worker_def)

lemma registered_step: "registered (step e ev s) q = registered s q"
proof (cases ev)
  case (Cancel c)
  then show ?thesis by (simp add: registered_def)
qed (simp_all add: open_stream_def select_step_def recv_step_def Let_def
       split: option.splits recv_result.splits list.splits)

lemma accepting_step:
  assumes "accepting (step e ev s) q"
  shows "accepting s q"
proof (cases ev)
  case (Open i r)
  with assms show ?thesis
    by (auto simp: open_stream_def Let_def split: if_splits option.splits dest: accepting_fail)
next
  case (TimerFires i)
  with assms show ?thesis by (simp split: if_splits)
next
  case (Select i b)
  with assms show ?thesis
    by (auto simp: select_step_def Let_def split: if_splits dest: accepting_fail)
next
  case (Recv i r)
  with assms show ?thesis
    by (auto simp: recv_step_def Let_def split: if_splits recv_result.splits list.splits
             dest: accepting_fail accepting_finish_step accepting_delta_step)
next
  case (Cancel c)
  with assms show ?thesis by (simp add: accepting_def)
qed

lemma accepting_run: "accepting (run e evs s) q \<Longrightarrow> accepting s q"
proof (induction evs arbitrary: s)
  case Nil
  then show ?case by (simp add: run_def)
next
  case (Cons ev evs)
  from Cons.prems have "accepting (run e evs (step e ev s)) q" by (simp add: run_def)
  then have "accepting (step e ev s) q" by (rule Cons.IH)
  then show ?case by (rule accepting_step)
qed

lemma accumulated_step:
  "accumulated (step e ev s) q p =
     accumulated s q p @
       (if accepting s q
        then content_for q p (case chunk_of ev s of None \<Rightarrow> [] | Some c \<Rightarrow> [c])
        else [])"
proof (cases ev)
  case (Open i r)
  then show ?thesis
    by (simp add: chunk_of_def content_for_def open_stream_def Let_def split: option.splits)
next
  case (TimerFires i)
  then show ?thesis
    by (simp add: chunk_of_def content_for_def)
next
  case (Select i b)
  then show ?thesis
    by (simp add: chunk_of_def content_for_def select_step_def Let_def)
next
  case (Cancel c)
  then show ?thesis
    by (simp add: chunk_of_def content_for_def accumulated_def)
next
  case (Recv i r)
  show ?thesis
  proof (cases "at s i InRecv")
    case False
    with Recv show ?thesis
      by (simp add: chunk_of_def content_for_def split: recv_result.splits list.splits)
  next
    case True
    then have i: "i < length (workers s)" by (simp add: at_def)
    show ?thesis
    proof (cases r)
      case (RecvErr err)
      with Recv True show ?thesis
        by (simp add: chunk_of_def content_for_def recv_step_def)
    next
      case (RecvOk choices)
      show ?thesis
      proof (cases choices)
        case Nil
        with Recv True RecvOk show ?thesis
          by (simp add: chunk_of_def content_for_def recv_step_def)
      next
        case (Cons choice rest)
        show ?thesis
        proof (cases "FinishReason choice = []")
          case False
          with Recv True RecvOk Cons show ?thesis
            by (simp add: chunk_of_def content_for_def recv_step_def)
        next
          case empty: True
          with Recv True RecvOk Cons i show ?thesis
            by (auto simp: chunk_of_def content_for_def recv_step_def accumulated_delta_step
                     split: option.splits)
        qed
      qed
    qed
  qed
qed

subsection \<open>Content accumulates in emission order\<close>

text \<open>
  Counterexample to C5 as stated: of the expected files \<open>a.txt\<close> and \<open>b.txt\<close>, the
  stream of \<open>b.txt\<close> fails, which sets the plan's error (line 52), and the worker of
  \<open>a.txt\<close> goes on and receives the chunk \<open>a\<close>. The chunk is marshalled and
  streamed (lines 211 to 222), but the update of line 207 finds the plan terminal: the
  content accumulated for \<open>a.txt\<close> stays empty.
\<close>

theorem chunk_after_error_not_accumulated:
  "chunks (demo_env ''production'') chunk_after_error_trace (started [''a.txt'', ''b.txt'']) =
     [(''p1'', ''a.txt'', ''a'')] \<and>
   out (run (demo_env ''production'') chunk_after_error_trace (started [''a.txt'', ''b.txt''])) =
     [([], Some ''Stream error: connection reset''), (wire_text ''a.txt'' ''a'', None)] \<and>
   Err (plan_of (run (demo_env ''production'') chunk_after_error_trace
                   (started [''a.txt'', ''b.txt''])) ''p1'') =
     Some ''Stream error: connection reset'' \<and>
   accumulated (run (demo_env ''production'') chunk_after_error_trace
                  (started [''a.txt'', ''b.txt''])) ''p1'' ''a.txt'' = [] \<and>
   accumulated (run (demo_env ''production'') chunk_after_error_trace
                  (started [''a.txt'', ''b.txt''])) ''p1'' ''a.txt'' \<noteq>
     content_for ''p1'' ''a.txt''
       (chunks (demo_env ''production'') chunk_after_error_trace (started [''a.txt'', ''b.txt'']))"
proof -
  let ?e = "demo_env ''production''"
  let ?s = "started [''a.txt'', ''b.txt'']"
  have c: "chunks ?e chunk_after_error_trace ?s = [(''p1'', ''a.txt'', ''a'')]"
    by (simp add: chunk_after_error_trace_def chunk_of_def server_defs demo_defs)
  have o: "out (run ?e chunk_after_error_trace ?s) =
             [([], Some ''Stream error: connection reset''), (wire_text ''a.txt'' ''a'', None)]"
    by (simp add: chunk_after_error_trace_def server_defs demo_defs codec_defs)
  have p: "Err (plan_of (run ?e chunk_after_error_trace ?s) ''p1'') =
             Some ''Stream error: connection reset''"
    by (simp add: chunk_after_error_trace_def plan_of_def server_defs demo_defs)
  have a: "accumulated (run ?e chunk_after_error_trace ?s) ''p1'' ''a.txt'' = []"
    by (simp add: chunk_after_error_trace_def accumulated_def server_defs demo_defs)
  from c o p a show ?thesis by (simp add: content_for_def)
qed

text \<open>
  C5 as amended. Whatever the events of a run are (any interleaving of the workers,
  timers, cancellations, errors), the content accumulated for a path is what it was
  before the run, followed by the contents of the chunks emitted for that path while the
  plan accepted updates, in the order of emission. When the plan still accepts updates
  at the end of the run, these are all the chunks emitted for the path. From a state in
  which the plan is terminal or not registered, the accumulated content stays what it
  is, whatever chunks are emitted.
\<close>

theorem accumulated_content_is_concatenation:
  "accumulated (run e evs s) pid path =
     accumulated s pid path @ content_for pid path (appended e evs s) \<and>
   (accepting (run e evs s) pid \<longrightarrow>
      accumulated (run e evs s) pid path =
        accumulated s pid path @ content_for pid path (chunks e evs s)) \<and>
   (\<not> accepting s pid \<longrightarrow>
      accumulated (run e evs s) pid path = accumulated s pid path)"
proof (intro conjI)
  show "accumulated (run e evs s) pid path =
          accumulated s pid path @ content_for pid path (appended e evs s)"
  proof (induction evs arbitrary: s)
    case Nil
    show ?case by (simp add: run_def content_for_def)
  next
    case (Cons ev evs)
    have "accumulated (run e (ev # evs) s) pid path =
            accumulated (run e evs (step e ev s)) pid path"
      by (simp add: run_def)
    also have "\<dots> = accumulated (step e ev s) pid path
                        @ content_for pid path (appended e evs (step e ev s))"
      by (rule Cons.IH)
    also have "\<dots> = accumulated s pid path @ content_for pid path (appended e (ev # evs) s)"
      by (auto simp: accumulated_step content_for_def split: option.splits)
    finally show ?case .
  qed
next
  show "accepting (run e evs s) pid \<longrightarrow>
      accumulated (run e evs s) pid path =
        accumulated s pid path @ content_for pid path (chunks e evs s)"
  proof (induction evs arbitrary: s)
    case Nil
    show ?case by (simp add: run_def content_for_def)
  next
    case (Cons ev evs)
    show ?case
    proof
      assume last: "accepting (run e (ev # evs) s) pid"
      then have later: "accepting (run e evs (step e ev s)) pid" by (simp add: run_def)
      then have "accepting (step e ev s) pid" by (rule accepting_run)
      then have now: "accepting s pid" by (rule accepting_step)
      have "accumulated (run e (ev # evs) s) pid path =
              accumulated (run e evs (step e ev s)) pid path"
        by (simp add: run_def)
      also have "\<dots> = accumulated (step e ev s) pid path
                          @ content_for pid path (chunks e evs (step e ev s))"
        using Cons.IH[of "step e ev s"] later by simp
      also have "\<dots> = accumulated s pid path @ content_for pid path (chunks e (ev # evs) s)"
        using now by (simp add: accumulated_step content_for_def split: option.splits)
      finally show "accumulated (run e (ev # evs) s) pid path =
              accumulated s pid path @ content_for pid path (chunks e (ev # evs) s)" .
    qed
  qed
next
  show "\<not> accepting s pid \<longrightarrow> accumulated (run e evs s) pid path = accumulated s pid path"
  proof (induction evs arbitrary: s)
    case Nil
    show ?case by (simp add: run_def)
  next
    case (Cons ev evs)
    show ?case
    proof
      assume closed: "\<not> accepting s pid"
      then have "\<not> accepting (step e ev s) pid" using accepting_step by blast
      with Cons.IH[of "step e ev s"]
      have "accumulated (run e evs (step e ev s)) pid path = accumulated (step e ev s) pid path"
        by simp
      with closed show "accumulated (run e (ev # evs) s) pid path = accumulated s pid path"
        by (simp add: run_def accumulated_step)
    qed
  qed
qed

text \<open>
  Witness for C5 as amended: two workers, the chunks \<open>a\<close>, \<open>b\<close>, \<open>c\<close> for
  \<open>a.txt\<close> with a chunk for \<open>b.txt\<close> in between, and no error: \<open>a.txt\<close>
  accumulates \<open>abc\<close>, and has it when both files have finished and the plan is
  finished. And once the stream of \<open>b.txt\<close> has failed, a chunk for \<open>a.txt\<close>
  leaves its content empty.
\<close>

theorem accumulated_abc_witness:
  "accepting (run (demo_env ''production'') abc_trace (started [''a.txt'', ''b.txt''])) ''p1'' \<and>
   accumulated (started [''a.txt'', ''b.txt'']) ''p1'' ''a.txt'' = [] \<and>
   chunks (demo_env ''production'') abc_trace (started [''a.txt'', ''b.txt'']) =
     [(''p1'', ''a.txt'', ''a''), (''p1'', ''b.txt'', ''x''),
      (''p1'', ''a.txt'', ''b''), (''p1'', ''a.txt'', ''c'')] \<and>
   accumulated (run (demo_env ''production'') abc_trace (started [''a.txt'', ''b.txt'']))
     ''p1'' ''a.txt'' = ''abc'' \<and>
   appended (demo_env ''production'') complete_trace (started [''a.txt'', ''b.txt'']) =
     [(''p1'', ''a.txt'', ''a''), (''p1'', ''b.txt'', ''x''),
      (''p1'', ''a.txt'', ''b''), (''p1'', ''a.txt'', ''c'')] \<and>
   Finished (plan_of (run (demo_env ''production'') complete_trace (started [''a.txt'', ''b.txt'']))
               ''p1'') \<and>
   accumulated (run (demo_env ''production'') complete_trace (started [''a.txt'', ''b.txt'']))
     ''p1'' ''a.txt'' = ''abc'' \<and>
   \<not> accepting
       (run (demo_env ''production'')
          [Open 0 None, Open 1 None, Select 1 False, Recv 1 (RecvErr ''connection reset'')]
          (started [''a.txt'', ''b.txt''])) ''p1'' \<and>
   accumulated
     (run (demo_env ''production'') [Select 0 False, Recv 0 (write_delta ''a'')]
        (run (demo_env ''production'')
           [Open 0 None, Open 1 None, Select 1 False, Recv 1 (RecvErr ''connection reset'')]
           (started [''a.txt'', ''b.txt'']))) ''p1'' ''a.txt'' = []"
proof -
  let ?e = "demo_env ''production''"
  let ?s = "started [''a.txt'', ''b.txt'']"
  let ?t = "run ?e [Open 0 None, Open 1 None, Select 1 False, Recv 1 (RecvErr ''connection reset'')] ?s"
  have r: "accepting (run ?e abc_trace ?s) ''p1''"
    by (simp add: abc_trace_def accepting_def server_defs demo_defs)
  have a: "accumulated ?s ''p1'' ''a.txt'' = []"
    by (simp add: accumulated_def server_defs demo_defs)
  have c: "chunks ?e abc_trace ?s =
     [(''p1'', ''a.txt'', ''a''), (''p1'', ''b.txt'', ''x''),
      (''p1'', ''a.txt'', ''b''), (''p1'', ''a.txt'', ''c'')]"
    by (simp add: abc_trace_def chunk_of_def server_defs demo_defs)
  have d: "appended ?e complete_trace ?s =
     [(''p1'', ''a.txt'', ''a''), (''p1'', ''b.txt'', ''x''),
      (''p1'', ''a.txt'', ''b''), (''p1'', ''a.txt'', ''c'')]"
    by (simp add: complete_trace_def abc_trace_def chunk_of_def accepting_def server_defs demo_defs)
  have f: "Finished (plan_of (run ?e complete_trace ?s) ''p1'')"
    by (simp add: complete_trace_def abc_trace_def plan_of_def server_defs demo_defs)
  have n: "\<not> accepting ?t ''p1''"
    by (simp add: accepting_def server_defs demo_defs)
  have b: "accumulated ?t ''p1'' ''a.txt'' = []"
    by (simp add: accumulated_def server_defs demo_defs)
  from accumulated_content_is_concatenation[of ?e abc_trace ?s "''p1''" "''a.txt''",
         THEN conjunct2, THEN conjunct1] r a c
  have x: "accumulated (run ?e abc_trace ?s) ''p1'' ''a.txt'' = ''abc''"
    by (simp add: content_for_def)
  from accumulated_content_is_concatenation[of ?e complete_trace ?s "''p1''" "''a.txt''",
         THEN conjunct1] a d
  have y: "accumulated (run ?e complete_trace ?s) ''p1'' ''a.txt'' = ''abc''"
    by (simp add: content_for_def)
  from accumulated_content_is_concatenation[of ?e "[Select 0 False, Recv 0 (write_delta ''a'')]" ?t
         "''p1''" "''a.txt''", THEN conjunct2, THEN conjunct2] n b
  have z: "accumulated (run ?e [Select 0 False, Recv 0 (write_delta ''a'')] ?t) ''p1'' ''a.txt'' = []"
    by simp
  show ?thesis
    by (intro conjI r a c x d f y n z)
qed

subsection \<open>What a worker does with a response\<close>

text \<open>
  Counterexample to C9 as stated, with the worker of \<open>a.txt\<close> blocked in
  \<^verbatim>\<open>stream.Recv()\<close>. A delta that calls a function named \<open>python\<close> is appended
  to the content and streamed as a chunk: lines 198 to 205 test that there is a function
  call and do not read its name. A response without choices (lines 164 to 167), and one
  whose finish reason is \<open>stop\<close> (lines 189 to 191), put the worker on the error path.
\<close>

theorem other_responses_not_skipped:
  "at (run (demo_env ''production'') [Open 0 None, Select 0 False] (started [''a.txt''])) 0 InRecv \<and>
   accumulated
     (step (demo_env ''production'') (Recv 0 (call_delta ''python'' ''x''))
        (run (demo_env ''production'') [Open 0 None, Select 0 False] (started [''a.txt''])))
     ''p1'' ''a.txt'' = ''x'' \<and>
   out (step (demo_env ''production'') (Recv 0 (call_delta ''python'' ''x''))
          (run (demo_env ''production'') [Open 0 None, Select 0 False] (started [''a.txt'']))) =
     [(wire_text ''a.txt'' ''x'', None)] \<and>
   out (step (demo_env ''production'') (Recv 0 (RecvOk []))
          (run (demo_env ''production'') [Open 0 None, Select 0 False] (started [''a.txt'']))) =
     [([], Some ''Stream error: no choices'')] \<and>
   at (step (demo_env ''production'') (Recv 0 (RecvOk []))
         (run (demo_env ''production'') [Open 0 None, Select 0 False] (started [''a.txt''])))
      0 Stopped \<and>
   out (step (demo_env ''production'') (Recv 0 (finish_with ''stop''))
          (run (demo_env ''production'') [Open 0 None, Select 0 False] (started [''a.txt'']))) =
     [([], Some ''Stream finished without 'write' function call. Reason: stop'')] \<and>
   at (step (demo_env ''production'') (Recv 0 (finish_with ''stop''))
         (run (demo_env ''production'') [Open 0 None, Select 0 False] (started [''a.txt''])))
      0 Stopped"
  by (simp add: call_delta_def accumulated_def server_defs demo_defs codec_defs)

text \<open>
  C9 as amended. Of a response that \<^verbatim>\<open>stream.Recv()\<close> returns without error, the
  worker reads the first choice. With no finish reason and no function call in the
  delta, the response is skipped: the line is logged, no plan changes, nothing is passed
  to the stream callback, and the worker is back at the \<^verbatim>\<open>select\<close>. With no finish
  reason and a function call, whatever the name of the function, the arguments are
  streamed as a chunk of the worker's path and appended to the content of that path
  (when the plan accepts updates), and the worker is back at the \<^verbatim>\<open>select\<close>. A
  finish reason other than \<^verbatim>\<open>function_call\<close>, and a response without choices, are
  errors of the file: the error is passed to the stream callback and the worker returns.
\<close>

theorem response_skipped_accepted_or_error:
  assumes "at s i InRecv"
    and "s' = step e (Recv i (RecvOk (choice # rest))) s"
  shows "(FinishReason choice = [] \<and> delta_FunctionCall (choice_Delta choice) = None \<longrightarrow>
            plans s' = plans s \<and> out s' = out s \<and>
            stdout s' = stdout s @ [newline @ ''Stream received data not for 'write' function call''] \<and>
            at s' i AtSelect) \<and>
         (FinishReason choice = [] \<and> delta_FunctionCall (choice_Delta choice) = Some fc \<and>
          json_Marshal e \<lparr>Path = w_filePath (workers s ! i), Content = Arguments fc\<rparr> = Inr js \<longrightarrow>
            out s' = out s @ [(js, None)] \<and>
            accumulated s' (w_proposalId (workers s ! i)) (w_filePath (workers s ! i)) =
              accumulated s (w_proposalId (workers s ! i)) (w_filePath (workers s ! i)) @
                (if accepting s (w_proposalId (workers s ! i)) then Arguments fc else []) \<and>
            at s' i AtSelect) \<and>
         (FinishReason choice \<noteq> [] \<and> FinishReason choice \<noteq> FinishReasonFunctionCall \<longrightarrow>
            out s' = out s @ [([], Some (''Stream finished without 'write' function call. Reason: ''
                                          @ FinishReason choice))] \<and>
            at s' i Stopped) \<and>
         out (step e (Recv i (RecvOk [])) s) = out s @ [([], Some ''Stream error: no choices'')] \<and>
         at (step e (Recv i (RecvOk [])) s) i Stopped"
proof -
  from assms(1) have i: "i < length (workers s)" by (simp add: at_def)
  have skip:
    "plans s' = plans s \<and> out s' = out s \<and>
     stdout s' = stdout s @ [newline @ ''Stream received data not for 'write' function call''] \<and>
     at s' i AtSelect"
    if "FinishReason choice = []" "delta_FunctionCall (choice_Delta choice) = None"
    using assms that
    by (simp add: recv_step_def delta_step_def goto_def set_worker_def println_def at_def)
  have call:
    "out s' = out s @ [(js, None)] \<and>
     accumulated s' (w_proposalId (workers s ! i)) (w_filePath (workers s ! i)) =
       accumulated s (w_proposalId (workers s ! i)) (w_filePath (workers s ! i)) @
         (if accepting s (w_proposalId (workers s ! i)) then Arguments fc else []) \<and>
     at s' i AtSelect"
    if "FinishReason choice = []" "delta_FunctionCall (choice_Delta choice) = Some fc"
       "json_Marshal e \<lparr>Path = w_filePath (workers s ! i), Content = Arguments fc\<rparr> = Inr js"
  proof -
    have o: "out s' = out s @ [(js, None)]" and a: "at s' i AtSelect"
      using assms that i
      by (simp_all add: recv_step_def delta_step_def goto_def set_worker_def onStream_def
            plans_Update_def at_def Let_def split: option.splits)
    have c: "accumulated s' (w_proposalId (workers s ! i)) (w_filePath (workers s ! i)) =
       accumulated s (w_proposalId (workers s ! i)) (w_filePath (workers s ! i)) @
         (if accepting s (w_proposalId (workers s ! i)) then Arguments fc else [])"
      using assms that i
      by (simp add: recv_step_def accumulated_delta_step)
    from o a c show ?thesis by simp
  qed
  have other:
    "out s' = out s @ [([], Some (''Stream finished without 'write' function call. Reason: ''
                                   @ FinishReason choice))] \<and>
     at s' i Stopped"
    if "FinishReason choice \<noteq> []" "FinishReason choice \<noteq> FinishReasonFunctionCall"
    using assms that i
    by (simp add: recv_step_def finish_step_def fail_def onError_def goto_def set_worker_def
          onStream_def println_def plans_Update_def at_def Let_def split: option.splits)
  have none:
    "out (step e (Recv i (RecvOk [])) s) = out s @ [([], Some ''Stream error: no choices'')] \<and>
     at (step e (Recv i (RecvOk [])) s) i Stopped"
    using assms(1) i
    by (simp add: recv_step_def fail_def onError_def goto_def set_worker_def
          onStream_def println_def plans_Update_def at_def Let_def split: option.splits)
  from skip call other none show ?thesis by blast
qed

text \<open>
  Witness for C9 as amended: the worker of \<open>a.txt\<close> is blocked in \<^verbatim>\<open>Recv\<close>; a
  text delta is skipped, a \<^verbatim>\<open>write\<close> delta is streamed and appended, the finish
  reason \<open>length\<close> is an error.
\<close>

theorem response_skipped_accepted_or_error_witness:
  "at (run (demo_env ''production'') [Open 0 None, Select 0 False] (started [''a.txt''])) 0 InRecv \<and>
   plans (step (demo_env ''production'') (Recv 0 (RecvOk [text_choice ''hello'']))
            (run (demo_env ''production'') [Open 0 None, Select 0 False] (started [''a.txt'']))) =
     plans (run (demo_env ''production'') [Open 0 None, Select 0 False] (started [''a.txt''])) \<and>
   out (step (demo_env ''production'') (Recv 0 (RecvOk [text_choice ''hello'']))
          (run (demo_env ''production'') [Open 0 None, Select 0 False] (started [''a.txt'']))) = [] \<and>
   at (step (demo_env ''production'') (Recv 0 (RecvOk [text_choice ''hello'']))
         (run (demo_env ''production'') [Open 0 None, Select 0 False] (started [''a.txt''])))
      0 AtSelect \<and>
   out (step (demo_env ''production'') (Recv 0 (write_delta ''x''))
          (run (demo_env ''production'') [Open 0 None, Select 0 False] (started [''a.txt'']))) =
     [(wire_text ''a.txt'' ''x'', None)] \<and>
   accumulated (step (demo_env ''production'') (Recv 0 (write_delta ''x''))
         (run (demo_env ''production'') [Open 0 None, Select 0 False] (started [''a.txt''])))
      ''p1'' ''a.txt'' = ''x'' \<and>
   out (step (demo_env ''production'') (Recv 0 (finish_with ''length''))
          (run (demo_env ''production'') [Open 0 None, Select 0 False] (started [''a.txt'']))) =
     [([], Some ''Stream finished without 'write' function call. Reason: length'')] \<and>
   at (step (demo_env ''production'') (Recv 0 (finish_with ''length''))
         (run (demo_env ''production'') [Open 0 None, Select 0 False] (started [''a.txt''])))
      0 Stopped"
proof -
  let ?e = "demo_env ''production''"
  let ?s = "run ?e [Open 0 None, Select 0 False] (started [''a.txt''])"
  let ?w = "\<lparr>FinishReason = [],
            choice_Delta = \<lparr>delta_Content = [],
              delta_FunctionCall = Some \<lparr>Name = ''write'', Arguments = ''x''\<rparr>\<rparr>\<rparr>"
  let ?l = "\<lparr>FinishReason = ''length'',
            choice_Delta = \<lparr>delta_Content = [], delta_FunctionCall = None\<rparr>\<rparr>"
  have a: "at ?s 0 InRecv"
    by (simp add: server_defs demo_defs)
  have o: "out ?s = []" and acc: "accumulated ?s ''p1'' ''a.txt'' = []"
    and ok: "accepting ?s ''p1''"
    and w: "w_proposalId (workers ?s ! 0) = ''p1''" "w_filePath (workers ?s ! 0) = ''a.txt''"
    by (simp_all add: server_defs demo_defs accumulated_def accepting_def terminal_def)
  have m: "json_Marshal ?e \<lparr>Path = ''a.txt'', Content = ''x''\<rparr> = Inr (wire_text ''a.txt'' ''x'')"
    by (simp add: demo_env_def codec_defs)
  have t: "FinishReason (text_choice ''hello'') = [] \<and>
           delta_FunctionCall (choice_Delta (text_choice ''hello'')) = None"
    by (simp add: text_choice_def)
  have l: "FinishReason ?l \<noteq> [] \<and> FinishReason ?l \<noteq> FinishReasonFunctionCall"
    by (simp add: FinishReasonFunctionCall_def)
  show ?thesis
    using response_skipped_accepted_or_error[where e = ?e and choice = "text_choice ''hello''"
          and rest = "[]", OF a refl]
      response_skipped_accepted_or_error[where e = ?e and choice = ?w and rest = "[]"
          and fc = "\<lparr>Name = ''write'', Arguments = ''x''\<rparr>"
          and js = "wire_text ''a.txt'' ''x''", OF a refl]
      response_skipped_accepted_or_error[where e = ?e and choice = ?l and rest = "[]", OF a refl]
      a o acc ok w m t l
    by (simp add: write_delta_def finish_with_def)
qed

subsection \<open>A file that fails\<close>




subsection \<open>The inactivity timer\<close>

text \<open>
  C2 at a concrete run: the worker of \<open>a.txt\<close> is blocked in \<^verbatim>\<open>stream.Recv()\<close>
  when its timer fires; then a chunk arrives. The value is taken from the timer's
  channel and the timer reset; the chunk is appended and streamed; no error is recorded
  for the file and the worker returns to the \<^verbatim>\<open>select\<close>, which sends it to
  \<^verbatim>\<open>Recv\<close> again.
\<close>

theorem watchdog_misses_late_chunk:
  "at (run (demo_env ''production'') [Open 0 None, Select 0 False, TimerFires 0] (started [''a.txt'']))
      0 InRecv \<and>
   w_timerC (workers (run (demo_env ''production'') [Open 0 None, Select 0 False, TimerFires 0]
                        (started [''a.txt''])) ! 0) \<and>
   at (run (demo_env ''production'') late_chunk_trace (started [''a.txt''])) 0 AtSelect \<and>
   w_timerC (workers (run (demo_env ''production'') late_chunk_trace (started [''a.txt''])) ! 0) = False \<and>
   FileErrs (plan_of (run (demo_env ''production'') late_chunk_trace (started [''a.txt''])) ''p1'')
     ''a.txt'' = None \<and>
   Err (plan_of (run (demo_env ''production'') late_chunk_trace (started [''a.txt''])) ''p1'') = None \<and>
   accumulated (run (demo_env ''production'') late_chunk_trace (started [''a.txt''])) ''p1'' ''a.txt''
     = ''x'' \<and>
   out (run (demo_env ''production'') late_chunk_trace (started [''a.txt''])) =
     [(wire_text ''a.txt'' ''x'', None)] \<and>
   at (run (demo_env ''production'') (late_chunk_trace @ [Select 0 True]) (started [''a.txt'']))
      0 InRecv"
  by (simp add: late_chunk_trace_def plan_of_def accumulated_def server_defs demo_defs codec_defs)

subsection \<open>Proposals that cannot be confirmed\<close>

text \<open>
  Counterexample to C10 as stated: with \<^verbatim>\<open>GOENV=test\<close> the function returns no error
  for an id that is not registered, and for a proposal that is not finished.
\<close>

theorem confirmProposal_test_mode_returns_nil:
  "proposals_Get empty_server ''p1'' = None \<and>
   fst (confirmProposal (demo_env ''test'') ''p1'' empty_server) = None \<and>
   proposals_Get (demo_server False [''a.txt'']) ''p1'' = Some (demo_proposal False [''a.txt'']) \<and>
   IsFinished (demo_proposal False [''a.txt'']) = False \<and>
   fst (confirmProposal (demo_env ''test'') ''p1'' (demo_server False [''a.txt''])) = None"
  by (simp add: confirmProposal_def proposals_Get_def IsFinished_def demo_defs)

text \<open>
  C10 as amended. Unless \<^verbatim>\<open>GOENV\<close> is \<open>test\<close>, confirming an id that is not
  registered returns ``proposal not found'' and confirming a proposal that is not
  finished returns ``proposal not finished''; in both cases the state is the one before
  the call: no plan is stored and no worker is started.
\<close>

theorem confirmProposal_rejects:
  assumes "GOENV e \<noteq> ''test''"
  shows "(proposals_Get s pid = None \<longrightarrow>
            confirmProposal e pid s = (Some ''proposal not found'', s)) \<and>
         (\<forall>p. proposals_Get s pid = Some p \<and> \<not> IsFinished p \<longrightarrow>
            confirmProposal e pid s = (Some ''proposal not finished'', s))"
  using assms by (simp add: confirmProposal_def)

text \<open>Witness for C10 as amended: an empty registry, and a proposal that is not finished.\<close>

theorem confirmProposal_rejects_witness:
  "GOENV (demo_env ''production'') \<noteq> ''test'' \<and>
   proposals_Get empty_server ''p1'' = None \<and>
   confirmProposal (demo_env ''production'') ''p1'' empty_server =
     (Some ''proposal not found'', empty_server) \<and>
   proposals_Get (demo_server False [''a.txt'']) ''p1'' = Some (demo_proposal False [''a.txt'']) \<and>
   \<not> IsFinished (demo_proposal False [''a.txt'']) \<and>
   confirmProposal (demo_env ''production'') ''p1'' (demo_server False [''a.txt'']) =
     (Some ''proposal not finished'', demo_server False [''a.txt''])"
proof -
  have g: "GOENV (demo_env ''production'') \<noteq> ''test''"
    by (simp add: demo_env_def)
  have n: "proposals_Get empty_server ''p1'' = None"
    by (simp add: proposals_Get_def empty_server_def)
  have u: "proposals_Get (demo_server False [''a.txt'']) ''p1'' = Some (demo_proposal False [''a.txt''])"
    by (simp add: proposals_Get_def demo_server_def)
  have f: "\<not> IsFinished (demo_proposal False [''a.txt''])"
    by (simp add: IsFinished_def demo_proposal_def)
  from confirmProposal_rejects[OF g, of empty_server "''p1''"]
       confirmProposal_rejects[OF g, of "demo_server False [''a.txt'']" "''p1''"] g n u f
  show ?thesis by simp
qed

section \<open>Properties of the client\<close>

lemmas client_defs =
  handler_body_def first_chunk_def on_finished_def on_describing_def on_building_def
  client_onError_def close_done_def endReply_def Let_def

lemmas demo_client_defs = client0_def demo_client_env_def chunk_def described_def

text \<open>With no call in progress and nothing in the channel, a call runs the body and resets \<^verbatim>\<open>running\<close>.\<close>

lemma handleStream_idle:
  assumes "\<not> running c" "queue c = []"
  shows "handleStream e params c =
           (case handler_body e params c of
              Ok c' \<Rightarrow> Ok (c'\<lparr>running := False\<rparr>)
            | Panic m \<Rightarrow> Panic m
            | Blocked \<Rightarrow> Blocked)"
proof (cases "handler_body e params c")
  case (Ok c')
  with handler_body_frame[OF Ok] assms show ?thesis by (simp add: handleStream.simps)
qed (use assms in \<open>simp_all add: handleStream.simps\<close>)

subsection \<open>The description\<close>

text \<open>
  C7. In the describing state, a payload that parses to a description with no plan made,
  or with no files, sets \<^verbatim>\<open>filesFinished\<close>; the call returns normally, nothing is
  written to standard error, \<^verbatim>\<open>done\<close> is not touched, and the state of the stream
  is still the describing one.
\<close>

theorem no_plan_marks_files_finished:
  assumes "\<not> running c" and "queue c = []"
    and "proposalId c \<noteq> []"
    and "p_Err params = None"
    and "p_State params = STATE_DESCRIBING"
    and "p_Content params \<noteq> STREAM_DESCRIPTION_PHASE e"
    and "json_Unmarshal_desc e (p_Content params) (desc c) = (None, Some d)"
    and "\<not> MadePlan d \<or> desc_Files d = []"
  shows "\<exists>c'. handleStream e params c = Ok c' \<and>
           filesFinished c' \<and>
           desc c' = Some d \<and>
           fsm_state c' = Some STATE_DESCRIBING \<and>
           stderr c' = stderr c \<and>
           done_closed c' = done_closed c \<and>
           keywatchCancelled c' = keywatchCancelled c \<and>
           streamFinished c' = streamFinished c"
  using assms
  by (auto simp: handleStream_idle handler_body_def on_describing_def Let_def)

text \<open>Witness for C7: the description ``no plan'' arrives after the proposal id.\<close>

theorem no_plan_marks_files_finished_witness:
  "\<not> running (client0\<lparr>proposalId := ''p1''\<rparr>) \<and>
   json_Unmarshal_desc demo_client_env ''no plan'' None =
     (None, Some \<lparr>MadePlan = False, desc_Files = []\<rparr>) \<and>
   filesFinished (client0\<lparr>proposalId := ''p1''\<rparr>) = False \<and>
   (\<exists>c'. handleStream demo_client_env (chunk STATE_DESCRIBING ''no plan'')
            (client0\<lparr>proposalId := ''p1''\<rparr>) = Ok c' \<and>
         filesFinished c' \<and> stderr c' = [] \<and> done_closed c' = False)"
proof -
  let ?c = "client0\<lparr>proposalId := ''p1''\<rparr>"
  have h: "\<not> running ?c" "queue ?c = []" "proposalId ?c \<noteq> []"
    "p_Err (chunk STATE_DESCRIBING ''no plan'') = None"
    "p_State (chunk STATE_DESCRIBING ''no plan'') = STATE_DESCRIBING"
    "p_Content (chunk STATE_DESCRIBING ''no plan'') \<noteq> STREAM_DESCRIPTION_PHASE demo_client_env"
    "json_Unmarshal_desc demo_client_env (p_Content (chunk STATE_DESCRIBING ''no plan'')) (desc ?c) =
       (None, Some \<lparr>MadePlan = False, desc_Files = []\<rparr>)"
    by (simp_all add: demo_client_defs)
  have u: "json_Unmarshal_desc demo_client_env ''no plan'' None =
     (None, Some \<lparr>MadePlan = False, desc_Files = []\<rparr>)"
    by (simp add: demo_client_defs)
  have s: "filesFinished ?c = False" "stderr ?c = []" "done_closed ?c = False"
    by (simp_all add: demo_client_defs)
  from no_plan_marks_files_finished[OF h] h(1) u s show ?thesis by auto
qed

text \<open>
  Counterexample to C6 as stated: after the id \<open>p1\<close>, a description payload that
  does not parse. The handler writes the error to standard error and closes
  \<^verbatim>\<open>done\<close>; the loop of \<^verbatim>\<open>Propose\<close> takes the case of \<^verbatim>\<open>done\<close>, breaks,
  and \<^verbatim>\<open>Propose\<close> returns \<^verbatim>\<open>nil\<close> (line 364): its caller gets no error.
\<close>

theorem malformed_description_returns_nil:
  "json_Unmarshal_desc demo_client_env ''{oops'' None = (Some ''invalid character'', None) \<and>
   handleStream demo_client_env (chunk STATE_DESCRIBING ''{oops'')
     (client0\<lparr>proposalId := ''p1''\<rparr>) = Ok after_malformed \<and>
   stderr after_malformed = [''Error: error parsing plan description: invalid character''] \<and>
   done_closed after_malformed \<and>
   fst (Propose_loop [DoneReceived] after_malformed) = Ok None"
proof -
  have h: "handleStream demo_client_env (chunk STATE_DESCRIBING ''{oops'')
             (client0\<lparr>proposalId := ''p1''\<rparr>) = Ok after_malformed"
    by (simp add: handleStream_idle client_defs demo_client_defs after_malformed_def)
  then show ?thesis
    by (simp add: demo_client_defs after_malformed_def)
qed

text \<open>
  C6 as amended. In the describing state, a payload that does not parse makes the
  handler report ``error parsing plan description'' on standard error, cancel the key
  watcher and close \<^verbatim>\<open>done\<close>; the handler returns there: \<^verbatim>\<open>filesFinished\<close>,
  \<^verbatim>\<open>streamFinished\<close> and the chunk buffers are as before, and the description
  variable holds what \<^verbatim>\<open>json.Unmarshal\<close> left in it; the handler is idle again,
  with nothing in its channel. When the loop of \<^verbatim>\<open>Propose\<close> then takes the case
  of \<^verbatim>\<open>done\<close>, \<^verbatim>\<open>Propose\<close> returns \<^verbatim>\<open>nil\<close>: the error is printed, not
  returned.
\<close>

theorem malformed_description_aborts:
  assumes "\<not> running c" and "queue c = []"
    and "proposalId c \<noteq> []"
    and "\<not> done_closed c"
    and "p_Err params = None"
    and "p_State params = STATE_DESCRIBING"
    and "p_Content params \<noteq> STREAM_DESCRIPTION_PHASE e"
    and "json_Unmarshal_desc e (p_Content params) (desc c) = (Some err, d)"
  shows "\<exists>c'. handleStream e params c = Ok c' \<and>
           stderr c' = stderr c @ [''Error: error parsing plan description: '' @ err] \<and>
           done_closed c' \<and>
           keywatchCancelled c' \<and>
           filesFinished c' = filesFinished c \<and>
           streamFinished c' = streamFinished c \<and>
           bufs c' = bufs c \<and>
           descJson c' = p_Content params \<and>
           desc c' = d \<and>
           \<not> running c' \<and> queue c' = [] \<and>
           fst (Propose_loop (DoneReceived # rs) c') = Ok None"
  using assms
  by (auto simp: handleStream_idle handler_body_def on_describing_def Let_def
        client_onError_def close_done_def)

text \<open>Witness for C6 as amended: a payload that is not a description.\<close>

theorem malformed_description_aborts_witness:
  "\<not> done_closed (client0\<lparr>proposalId := ''p1''\<rparr>) \<and>
   json_Unmarshal_desc demo_client_env ''{oops'' None = (Some ''invalid character'', None) \<and>
   (\<exists>c'. handleStream demo_client_env (chunk STATE_DESCRIBING ''{oops'')
            (client0\<lparr>proposalId := ''p1''\<rparr>) = Ok c' \<and>
         stderr c' = [''Error: error parsing plan description: invalid character''] \<and>
         done_closed c' \<and> keywatchCancelled c' \<and> filesFinished c' = False \<and>
         desc c' = None \<and>
         fst (Propose_loop [DoneReceived] c') = Ok None)"
proof -
  let ?c = "client0\<lparr>proposalId := ''p1''\<rparr>"
  have h: "\<not> running ?c" "queue ?c = []" "proposalId ?c \<noteq> []" "\<not> done_closed ?c"
    "p_Err (chunk STATE_DESCRIBING ''{oops'') = None"
    "p_State (chunk STATE_DESCRIBING ''{oops'') = STATE_DESCRIBING"
    "p_Content (chunk STATE_DESCRIBING ''{oops'') \<noteq> STREAM_DESCRIPTION_PHASE demo_client_env"
    "json_Unmarshal_desc demo_client_env (p_Content (chunk STATE_DESCRIBING ''{oops'')) (desc ?c) =
       (Some ''invalid character'', None)"
    by (simp_all add: demo_client_defs)
  have u: "json_Unmarshal_desc demo_client_env ''{oops'' None = (Some ''invalid character'', None)"
    by (simp add: demo_client_defs)
  have s: "filesFinished ?c = False" "stderr ?c = []"
    by (simp_all add: demo_client_defs)
  from malformed_description_aborts[OF h, of "[]"] h(4) u s show ?thesis by auto
qed

subsection \<open>Global completion\<close>

lemma finished_marker_step:
  assumes "\<not> running c" and "queue c = []"
    and "proposalId c \<noteq> []"
    and "\<not> done_closed c"
    and "p_Err params = None"
    and "p_State params = STATE_FINISHED"
  shows "\<exists>c'. handleStream e params c = Ok c' \<and>
           \<not> running c' \<and> queue c' = [] \<and> proposalId c' = proposalId c \<and>
           desc c' = desc c \<and> bufs c' = bufs c \<and>
           streamFinished c' \<and>
           filesFinished c' = filesFinished c \<and>
           done_closed c' = filesFinished c"
  using assms
  by (auto simp: handleStream_idle handler_body_def on_finished_def Let_def close_done_def
        endReply_def)

lemma last_file_step:
  assumes "\<not> running c" and "queue c = []"
    and "proposalId c \<noteq> []"
    and "\<not> done_closed c"
    and "p_Err params = None"
    and "p_State params = STATE_BUILDING"
    and "p_Content params \<noteq> STREAM_BUILD_PHASE e"
    and "receiveFileChunk e (p_Content params) (bufs c) = (True, None, b)"
    and "desc c = Some d"
    and "card (dom (finishedByPath b)) = length (desc_Files d)"
    and "writeFilesFromSections e (finishedByPath b) = None"
  shows "\<exists>c'. handleStream e params c = Ok c' \<and>
           \<not> running c' \<and> queue c' = [] \<and> proposalId c' = proposalId c \<and>
           filesFinished c' \<and>
           streamFinished c' = streamFinished c \<and>
           done_closed c' = streamFinished c"
  using assms
  by (auto simp: handleStream_idle handler_body_def on_building_def Let_def close_done_def)

text \<open>
  C4. Take a client with \<^verbatim>\<open>done\<close> open and neither flag set, the chunk of the
  finished state, and the chunk that completes the last file (\<^verbatim>\<open>receiveFileChunk\<close>
  reports a written file, as many paths are finished as the description lists, and the
  files are written). Whichever of the two is handled first leaves \<^verbatim>\<open>done\<close> open,
  and the other one then closes it. Each call returns normally; a second
  \<^verbatim>\<open>close(done)\<close> would be a panic.
\<close>

theorem global_completion_fires_once:
  assumes "\<not> running c" and "queue c = []"
    and "proposalId c \<noteq> []"
    and "\<not> done_closed c" and "\<not> streamFinished c" and "\<not> filesFinished c"
    and "p_Err fin = None" and "p_State fin = STATE_FINISHED"
    and "p_Err lst = None" and "p_State lst = STATE_BUILDING"
    and "p_Content lst \<noteq> STREAM_BUILD_PHASE e"
    and "receiveFileChunk e (p_Content lst) (bufs c) = (True, None, b)"
    and "desc c = Some d"
    and "card (dom (finishedByPath b)) = length (desc_Files d)"
    and "writeFilesFromSections e (finishedByPath b) = None"
  shows "(\<exists>c1 c2. handleStream e fin c = Ok c1 \<and> \<not> done_closed c1 \<and>
                  handleStream e lst c1 = Ok c2 \<and> done_closed c2) \<and>
         (\<exists>c1 c2. handleStream e lst c = Ok c1 \<and> \<not> done_closed c1 \<and>
                  handleStream e fin c1 = Ok c2 \<and> done_closed c2)"
proof
  from finished_marker_step[of c fin e] assms
  obtain c1 where c1: "handleStream e fin c = Ok c1" "\<not> running c1" "queue c1 = []"
      "proposalId c1 = proposalId c" "desc c1 = desc c" "bufs c1 = bufs c"
      "streamFinished c1" "\<not> done_closed c1"
    by auto
  from last_file_step[of c1 lst e b d] c1 assms
  obtain c2 where "handleStream e lst c1 = Ok c2" "done_closed c2"
    by auto
  with c1 show "\<exists>c1 c2. handleStream e fin c = Ok c1 \<and> \<not> done_closed c1 \<and>
                  handleStream e lst c1 = Ok c2 \<and> done_closed c2"
    by blast
next
  from last_file_step[of c lst e b d] assms
  obtain c1 where c1: "handleStream e lst c = Ok c1" "\<not> running c1" "queue c1 = []"
      "proposalId c1 = proposalId c" "filesFinished c1" "\<not> done_closed c1"
    by auto
  from finished_marker_step[of c1 fin e] c1 assms
  obtain c2 where "handleStream e fin c1 = Ok c2" "done_closed c2"
    by auto
  with c1 show "\<exists>c1 c2. handleStream e lst c = Ok c1 \<and> \<not> done_closed c1 \<and>
                  handleStream e fin c1 = Ok c2 \<and> done_closed c2"
    by blast
qed

text \<open>
  Witness for C4: the plan is for \<open>a.txt\<close>; the finished marker and the end of
  \<open>a.txt\<close> in both orders.
\<close>

theorem global_completion_fires_once_witness:
  "\<not> done_closed (described ''plan for a.txt'') \<and>
   desc (described ''plan for a.txt'') = Some \<lparr>MadePlan = True, desc_Files = [''a.txt'']\<rparr> \<and>
   (\<exists>c1 c2. handleStream demo_client_env (chunk STATE_FINISHED ''@@FINISHED@@'')
               (described ''plan for a.txt'') = Ok c1 \<and> \<not> done_closed c1 \<and>
            handleStream demo_client_env (chunk STATE_BUILDING ''end of a.txt'') c1 = Ok c2 \<and>
            done_closed c2) \<and>
   (\<exists>c1 c2. handleStream demo_client_env (chunk STATE_BUILDING ''end of a.txt'')
               (described ''plan for a.txt'') = Ok c1 \<and> \<not> done_closed c1 \<and>
            handleStream demo_client_env (chunk STATE_FINISHED ''@@FINISHED@@'') c1 = Ok c2 \<and>
            done_closed c2)"
proof -
  let ?c = "described ''plan for a.txt''"
  let ?b = "(bufs ?c)\<lparr>finishedByPath := (finishedByPath (bufs ?c))(''a.txt'' \<mapsto> True)\<rparr>"
  let ?d = "\<lparr>MadePlan = True, desc_Files = [''a.txt'']\<rparr>"
  have h: "\<not> running ?c" "queue ?c = []" "proposalId ?c \<noteq> []"
    "\<not> done_closed ?c" "\<not> streamFinished ?c" "\<not> filesFinished ?c"
    "p_Err (chunk STATE_FINISHED ''@@FINISHED@@'') = None"
    "p_State (chunk STATE_FINISHED ''@@FINISHED@@'') = STATE_FINISHED"
    "p_Err (chunk STATE_BUILDING ''end of a.txt'') = None"
    "p_State (chunk STATE_BUILDING ''end of a.txt'') = STATE_BUILDING"
    "p_Content (chunk STATE_BUILDING ''end of a.txt'') \<noteq> STREAM_BUILD_PHASE demo_client_env"
    "receiveFileChunk demo_client_env (p_Content (chunk STATE_BUILDING ''end of a.txt'')) (bufs ?c) =
       (True, None, ?b)"
    "desc ?c = Some ?d"
    "card (dom (finishedByPath ?b)) = length (desc_Files ?d)"
    "writeFilesFromSections demo_client_env (finishedByPath ?b) = None"
    by (simp_all add: demo_client_defs)
  from global_completion_fires_once[OF h] h(4) h(13) show ?thesis by simp
qed

subsection \<open>Calls that overlap\<close>

text \<open>
  C1 at a concrete schedule: two calls are at the entry of \<^verbatim>\<open>handleStream\<close>; the
  first passes the test of \<^verbatim>\<open>running\<close>, then the second does. Both are in the handler
  body at once, \<^verbatim>\<open>running\<close> is still false and the channel is empty.
\<close>

theorem overlapping_calls_both_run:
  "calls (schedule demo_client_env [0, 1] two_calls) =
     [InBody (chunk STATE_REPLYING ''p1''), InBody (chunk STATE_REPLYING ''Hello'')] \<and>
   active (schedule demo_client_env [0, 1] two_calls) = 2 \<and>
   running (shared (schedule demo_client_env [0, 1] two_calls)) = False \<and>
   queue (shared (schedule demo_client_env [0, 1] two_calls)) = []"
  by (simp add: schedule_def call_step_def set_call_def send_queue_def active_def two_calls_def
        client0_def)

section \<open>Properties of the chunk codec\<close>

lemma hexval_hex_upto: "list_all (\<lambda>n. hexval (hex n) = Some n) [0..<16]"
  by code_simp

lemma hexval_hex: "n < 16 \<Longrightarrow> hexval (hex n) = Some n"
  using hexval_hex_upto by (simp add: list_all_iff)

lemma byte_char_of: "char_of (byte c) = c"
  by (simp add: byte_def)

lemma byte_inj: "byte c = byte d \<Longrightarrow> c = d"
  by (simp add: byte_def)

lemma byte_is:
  "byte c = 0x5C \<Longrightarrow> c = CHR 0x5C"
  "byte c = 0x22 \<Longrightarrow> c = CHR 0x22"
  "byte c = 0x08 \<Longrightarrow> c = CHR 0x08"
  "byte c = 0x0C \<Longrightarrow> c = CHR 0x0C"
  "byte c = 0x0A \<Longrightarrow> c = CHR 0x0A"
  "byte c = 0x0D \<Longrightarrow> c = CHR 0x0D"
  "byte c = 0x09 \<Longrightarrow> c = CHR 0x09"
  by (rule byte_inj, simp add: byte_def)+

subsection \<open>Escapes are read back\<close>

lemma unquote_short_escape:
  assumes "unescape e = Some c" "e \<noteq> CHR ''u''"
  shows "unquote (backslash # e # X) = prepend [c] (unquote X)"
  using assms by (simp add: backslash_def byte_def)

lemma unquote_u00:
  assumes "byte c < 0x80"
  shows "unquote ([backslash, CHR ''u'', CHR ''0'', CHR ''0'', hex (byte c div 16), hex (byte c mod 16)] @ X)
           = prepend [c] (unquote X)"
proof -
  have lo: "byte c div 16 < 16" "byte c mod 16 < 16"
    using assms by simp_all
  have h0: "hexval (CHR ''0'') = Some 0"
    by (simp add: hexval_def byte_def)
  have g: "getu4 (backslash # CHR ''u'' # CHR ''0'' # CHR ''0'' # hex (byte c div 16) # hex (byte c mod 16) # X)
             = Some (byte c)"
    by (simp add: backslash_def byte_def[of "CHR 0x5C"] byte_def[of "CHR ''u''"] h0
          hexval_hex[OF lo(1)] hexval_hex[OF lo(2)])
  have s: "\<not> IsSurrogate (byte c)"
    using assms by (simp add: IsSurrogate_def)
  have e: "EncodeRune (byte c) = [c]"
    using assms by (simp add: EncodeRune_def byte_char_of)
  have b: "byte backslash = 0x5C"
    by (simp add: backslash_def byte_def)
  show ?thesis
    using g s e b by simp
qed

lemma unquote_escape_ascii:
  assumes "byte c < 0x80"
  shows "unquote (escape_ascii shortBF c @ X) = prepend [c] (unquote X)"
proof -
  consider (safe) "htmlSafe (byte c)"
    | (quoted) "byte c = 0x5C \<or> byte c = 0x22"
    | (b) "shortBF" "byte c = 0x08"
    | (f) "shortBF" "byte c = 0x0C"
    | (n) "byte c = 0x0A"
    | (r) "byte c = 0x0D"
    | (t) "byte c = 0x09"
    | (other) "\<not> htmlSafe (byte c)" "\<not> (byte c = 0x5C \<or> byte c = 0x22)"
        "\<not> (shortBF \<and> byte c = 0x08)" "\<not> (shortBF \<and> byte c = 0x0C)"
        "byte c \<noteq> 0x0A" "byte c \<noteq> 0x0D" "byte c \<noteq> 0x09"
    by blast
  then show ?thesis
  proof cases
    case safe
    then show ?thesis
      by (simp add: escape_ascii_def htmlSafe_def)
  next
    case quoted
    then have "escape_ascii shortBF c = [backslash, c]" "unescape c = Some c" "c \<noteq> CHR ''u''"
      by (auto simp: escape_ascii_def htmlSafe_def unescape_def byte_def)
    then show ?thesis
      by (simp add: unquote_short_escape del: unquote.simps)
  next
    case b
    then have "escape_ascii shortBF c = [backslash, CHR ''b'']" "unescape (CHR ''b'') = Some c"
      by (auto simp: escape_ascii_def htmlSafe_def unescape_def byte_def[of "CHR ''b''"] dest: byte_is)
    then show ?thesis
      by (simp add: unquote_short_escape del: unquote.simps)
  next
    case f
    then have "escape_ascii shortBF c = [backslash, CHR ''f'']" "unescape (CHR ''f'') = Some c"
      by (auto simp: escape_ascii_def htmlSafe_def unescape_def byte_def[of "CHR ''f''"] dest: byte_is)
    then show ?thesis
      by (simp add: unquote_short_escape del: unquote.simps)
  next
    case n
    then have "escape_ascii shortBF c = [backslash, CHR ''n'']" "unescape (CHR ''n'') = Some c"
      by (auto simp: escape_ascii_def htmlSafe_def unescape_def byte_def[of "CHR ''n''"] dest: byte_is)
    then show ?thesis
      by (simp add: unquote_short_escape del: unquote.simps)
  next
    case r
    then have "escape_ascii shortBF c = [backslash, CHR ''r'']" "unescape (CHR ''r'') = Some c"
      by (auto simp: escape_ascii_def htmlSafe_def unescape_def byte_def[of "CHR ''r''"] dest: byte_is)
    then show ?thesis
      by (simp add: unquote_short_escape del: unquote.simps)
  next
    case t
    then have "escape_ascii shortBF c = [backslash, CHR ''t'']" "unescape (CHR ''t'') = Some c"
      by (auto simp: escape_ascii_def htmlSafe_def unescape_def byte_def[of "CHR ''t''"] dest: byte_is)
    then show ?thesis
      by (simp add: unquote_short_escape del: unquote.simps)
  next
    case other
    then have "escape_ascii shortBF c =
        [backslash, CHR ''u'', CHR ''0'', CHR ''0'', hex (byte c div 16), hex (byte c mod 16)]"
      by (simp add: escape_ascii_def)
    then show ?thesis
      using unquote_u00[OF assms, of X] by (simp del: unquote.simps)
  qed
qed


subsection \<open>Well-formed sequences\<close>

lemma accept_ranges:
  assumes "accept s0 = Some (sz, lo, hi)"
  shows "0x80 \<le> lo \<and> hi \<le> 0xBF \<and>
         (sz = 2 \<and> 0xC2 \<le> s0 \<and> s0 \<le> 0xDF \<or>
          sz = 3 \<and> 0xE0 \<le> s0 \<and> s0 \<le> 0xEF \<and> (s0 = 0xE0 \<longrightarrow> lo = 0xA0) \<and> (s0 = 0xED \<longrightarrow> hi = 0x9F) \<or>
          sz = 4 \<and> 0xF0 \<le> s0 \<and> s0 \<le> 0xF4 \<and> (s0 = 0xF0 \<longrightarrow> lo = 0x90) \<and> (s0 = 0xF4 \<longrightarrow> hi = 0x8F))"
  using assms by (auto simp: accept_def split: if_splits)

lemma DecodeRune_multi_cases [consumes 3, case_names two three four]:
  assumes "\<not> byte c < 0x80" "DecodeRune (c # r) = (rune, width)" "\<not> (rune = RuneError \<and> width = 1)"
  obtains
    (two) c1 r1 lo hi where "r = c1 # r1" "width = 2" "accept (byte c) = Some (2, lo, hi)"
      "lo \<le> byte c1" "byte c1 \<le> hi" "rune = (byte c mod 32) * 64 + byte c1 mod 64"
  | (three) c1 c2 r2 lo hi where "r = c1 # c2 # r2" "width = 3" "accept (byte c) = Some (3, lo, hi)"
      "lo \<le> byte c1" "byte c1 \<le> hi" "0x80 \<le> byte c2" "byte c2 \<le> 0xBF"
      "rune = (byte c mod 16) * 4096 + (byte c1 mod 64) * 64 + byte c2 mod 64"
  | (four) c1 c2 c3 r3 lo hi where "r = c1 # c2 # c3 # r3" "width = 4" "accept (byte c) = Some (4, lo, hi)"
      "lo \<le> byte c1" "byte c1 \<le> hi" "0x80 \<le> byte c2" "byte c2 \<le> 0xBF"
      "0x80 \<le> byte c3" "byte c3 \<le> 0xBF"
      "rune = (byte c mod 8) * 262144 + (byte c1 mod 64) * 4096 + (byte c2 mod 64) * 64 + byte c3 mod 64"
proof (cases "accept (byte c)")
  case None
  with assms show ?thesis by simp
next
  case (Some a)
  then obtain sz lo hi where a: "accept (byte c) = Some (sz, lo, hi)"
    by (cases a) auto
  from accept_ranges[OF a] consider "sz = 2" | "sz = 3" | "sz = 4" by blast
  then show ?thesis
  proof cases
    case 1
    with assms a two show ?thesis
      by (auto split: list.splits if_splits)
  next
    case 2
    with assms a three show ?thesis
      by (auto split: list.splits if_splits)
  next
    case 3
    with assms a four show ?thesis
      by (auto split: list.splits if_splits)
  qed
qed


lemma digit_div: "x < k \<Longrightarrow> (a * k + x) div k = (a::nat)"
  by simp
lemma digit_mod: "x < k \<Longrightarrow> (a * k + x) mod k = (x::nat)"
  by simp

lemma mod_offset:
  fixes s k m :: nat
  assumes "m * k \<le> s" "s < m * k + k"
  shows "s mod k = s - m * k"
proof -
  have "s = m * k + (s - m * k)" using assms by simp
  then have "s mod k = (m * k + (s - m * k)) mod k" by simp
  also have "\<dots> = s - m * k" using assms by (intro digit_mod) simp
  finally show ?thesis .
qed

lemma lead2: "0xC0 \<le> s \<Longrightarrow> s \<le> 0xDF \<Longrightarrow> s mod 32 = s - (0xC0::nat)"
  using mod_offset[of 6 32 s] by simp
lemma lead3: "0xE0 \<le> s \<Longrightarrow> s \<le> 0xEF \<Longrightarrow> s mod 16 = s - (0xE0::nat)"
  using mod_offset[of 14 16 s] by simp
lemma lead4: "0xF0 \<le> s \<Longrightarrow> s \<le> 0xF7 \<Longrightarrow> s mod 8 = s - (0xF0::nat)"
  using mod_offset[of 30 8 s] by simp
lemma contb: "0x80 \<le> s \<Longrightarrow> s \<le> 0xBF \<Longrightarrow> s mod 64 = s - (0x80::nat)"
  using mod_offset[of 2 64 s] by simp

lemma digits2:
  fixes a d :: nat
  assumes "d < 64"
  shows "(a * 64 + d) div 64 = a" "(a * 64 + d) mod 64 = d"
  using assms by simp_all

lemma digits3:
  fixes a b d :: nat
  assumes "b < 64" "d < 64"
  shows "(a * 4096 + b * 64 + d) div 4096 = a"
    "((a * 4096 + b * 64 + d) div 64) mod 64 = b"
    "(a * 4096 + b * 64 + d) mod 64 = d"
proof -
  have e: "a * 4096 + b * 64 + d = (a * 64 + b) * 64 + d" by simp
  have "b * 64 + d < 4096" using assms by simp
  then have "(a * 4096 + (b * 64 + d)) div 4096 = a" by (rule digit_div)
  then show "(a * 4096 + b * 64 + d) div 4096 = a" by (simp only: add.assoc)
  have "(a * 4096 + b * 64 + d) div 64 = ((a * 64 + b) * 64 + d) div 64" by (simp only: e)
  also have "\<dots> = a * 64 + b" using assms(2) by (rule digit_div)
  finally have q: "(a * 4096 + b * 64 + d) div 64 = a * 64 + b" .
  show "((a * 4096 + b * 64 + d) div 64) mod 64 = b"
    unfolding q using assms(1) by (rule digit_mod)
  have "(a * 4096 + b * 64 + d) mod 64 = ((a * 64 + b) * 64 + d) mod 64" by (simp only: e)
  also have "\<dots> = d" using assms(2) by (rule digit_mod)
  finally show "(a * 4096 + b * 64 + d) mod 64 = d" .
qed

lemma digits4:
  fixes a b c d :: nat
  assumes "b < 64" "c < 64" "d < 64"
  shows "(a * 262144 + b * 4096 + c * 64 + d) div 262144 = a"
    "((a * 262144 + b * 4096 + c * 64 + d) div 4096) mod 64 = b"
    "((a * 262144 + b * 4096 + c * 64 + d) div 64) mod 64 = c"
    "(a * 262144 + b * 4096 + c * 64 + d) mod 64 = d"
proof -
  let ?r = "a * 262144 + b * 4096 + c * 64 + d"
  have e1: "?r = a * 262144 + (b * 4096 + c * 64 + d)" by simp
  have e2: "?r = (a * 64 + b) * 4096 + (c * 64 + d)" by simp
  have e3: "?r = ((a * 64 + b) * 64 + c) * 64 + d" by simp
  have l1: "b * 4096 + c * 64 + d < 262144" using assms by simp
  have l2: "c * 64 + d < 4096" using assms by simp
  have "?r div 262144 = (a * 262144 + (b * 4096 + c * 64 + d)) div 262144" by (simp only: e1)
  also have "\<dots> = a" using l1 by (rule digit_div)
  finally show "?r div 262144 = a" .
  have "?r div 4096 = ((a * 64 + b) * 4096 + (c * 64 + d)) div 4096" by (simp only: e2)
  also have "\<dots> = a * 64 + b" using l2 by (rule digit_div)
  finally have q2: "?r div 4096 = a * 64 + b" .
  show "(?r div 4096) mod 64 = b" unfolding q2 using assms(1) by (rule digit_mod)
  have "?r div 64 = (((a * 64 + b) * 64 + c) * 64 + d) div 64" by (simp only: e3)
  also have "\<dots> = (a * 64 + b) * 64 + c" using assms(3) by (rule digit_div)
  finally have q3: "?r div 64 = (a * 64 + b) * 64 + c" .
  show "(?r div 64) mod 64 = c" unfolding q3 using assms(2) by (rule digit_mod)
  have "?r mod 64 = (((a * 64 + b) * 64 + c) * 64 + d) mod 64" by (simp only: e3)
  also have "\<dots> = d" using assms(3) by (rule digit_mod)
  finally show "?r mod 64 = d" .
qed

lemma EncodeRune_DecodeRune:
  assumes "\<not> byte c < 0x80" "DecodeRune (c # r) = (rune, width)" "\<not> (rune = RuneError \<and> width = 1)"
  shows "EncodeRune rune = take width (c # r)"
  using assms
proof (cases rule: DecodeRune_multi_cases)
  case (two c1 r1 lo hi)
  from accept_ranges[OF two(3)] two(4,5)
  have s: "0xC2 \<le> byte c" "byte c \<le> 0xDF" "0x80 \<le> byte c1" "byte c1 \<le> 0xBF"
    by auto
  define a where "a = byte c - 0xC0"
  define b where "b = byte c1 - 0x80"
  have m: "byte c mod 32 = a" "byte c1 mod 64 = b"
    using s by (simp_all add: a_def b_def lead2 contb)
  have ab: "2 \<le> a" "a < 32" "b < 64" "0xC0 + a = byte c" "0x80 + b = byte c1"
    using s by (simp_all add: a_def b_def)
  have rune: "rune = a * 64 + b"
    using two(6) m by simp
  have "\<not> rune \<le> 0x7F" "rune \<le> 0x7FF"
    using ab rune by simp_all
  moreover have "rune div 64 = a" "rune mod 64 = b"
    unfolding rune using ab(3) by (rule digits2)+
  ultimately have "EncodeRune rune = [char_of (byte c), char_of (byte c1)]"
    using ab by (simp add: EncodeRune_def)
  with two show ?thesis by (simp add: byte_char_of)
next
  case (three c1 c2 r2 lo hi)
  from accept_ranges[OF three(3)] three(4-7)
  have s: "0xE0 \<le> byte c" "byte c \<le> 0xEF" "0x80 \<le> byte c1" "byte c1 \<le> 0xBF"
     "byte c = 0xE0 \<longrightarrow> 0xA0 \<le> byte c1" "byte c = 0xED \<longrightarrow> byte c1 \<le> 0x9F"
    by auto
  define a where "a = byte c - 0xE0"
  define b where "b = byte c1 - 0x80"
  define d where "d = byte c2 - 0x80"
  have m: "byte c mod 16 = a" "byte c1 mod 64 = b" "byte c2 mod 64 = d"
    using s three(6,7) by (simp_all add: a_def b_def d_def lead3 contb)
  have abd: "a < 16" "b < 64" "d < 64" "0xE0 + a = byte c" "0x80 + b = byte c1" "0x80 + d = byte c2"
     "a = 0 \<longrightarrow> 32 \<le> b" "a = 13 \<longrightarrow> b < 32"
    using s three(6,7) by (auto simp: a_def b_def d_def)
  have rune: "rune = a * 4096 + b * 64 + d"
    using three(8) m by simp
  have "\<not> rune \<le> 0x7FF"
  proof (cases "a = 0")
    case True
    with abd(7) rune show ?thesis by simp
  next
    case False
    with rune show ?thesis by simp
  qed
  moreover have "rune \<le> 0xFFFF" "\<not> rune > 0x10FFFF"
    using abd(1,2,3) rune by simp_all
  moreover have "\<not> (0xD800 \<le> rune \<and> rune \<le> 0xDFFF)"
  proof -
    consider "a \<le> 12" | "a = 13" | "14 \<le> a" by arith
    then show ?thesis
    proof cases
      case 1
      with abd(2,3) rune show ?thesis by simp
    next
      case 2
      with abd(3,8) rune show ?thesis by simp
    next
      case 3
      with rune show ?thesis by simp
    qed
  qed
  moreover have "rune div 4096 = a" "(rune div 64) mod 64 = b" "rune mod 64 = d"
    unfolding rune using abd(2,3) by (rule digits3)+
  ultimately have "EncodeRune rune = [char_of (byte c), char_of (byte c1), char_of (byte c2)]"
    using abd by (auto simp: EncodeRune_def enc3_def)
  with three show ?thesis by (simp add: byte_char_of)
next
  case (four c1 c2 c3 r3 lo hi)
  from accept_ranges[OF four(3)] four(4-9)
  have s: "0xF0 \<le> byte c" "byte c \<le> 0xF4" "0x80 \<le> byte c1" "byte c1 \<le> 0xBF"
     "byte c = 0xF0 \<longrightarrow> 0x90 \<le> byte c1" "byte c = 0xF4 \<longrightarrow> byte c1 \<le> 0x8F"
    by auto
  define a where "a = byte c - 0xF0"
  define b where "b = byte c1 - 0x80"
  define d where "d = byte c2 - 0x80"
  define f where "f = byte c3 - 0x80"
  have m: "byte c mod 8 = a" "byte c1 mod 64 = b" "byte c2 mod 64 = d" "byte c3 mod 64 = f"
    using s four(6-9) by (simp_all add: a_def b_def d_def f_def lead4 contb)
  have abd: "a \<le> 4" "b < 64" "d < 64" "f < 64" "0xF0 + a = byte c" "0x80 + b = byte c1"
     "0x80 + d = byte c2" "0x80 + f = byte c3"
     "a = 0 \<longrightarrow> 16 \<le> b" "a = 4 \<longrightarrow> b < 16"
    using s four(6-9) by (auto simp: a_def b_def d_def f_def)
  have rune: "rune = a * 262144 + b * 4096 + d * 64 + f"
    using four(10) m by simp
  have "\<not> rune \<le> 0xFFFF"
  proof (cases "a = 0")
    case True
    with abd(9) rune show ?thesis by simp
  next
    case False
    with rune show ?thesis by simp
  qed
  moreover have "\<not> rune > 0x10FFFF"
  proof (cases "a = 4")
    case True
    with abd(3,4,10) rune show ?thesis by simp
  next
    case False
    with abd(1) have "a \<le> 3" by simp
    with abd(2,3,4) rune show ?thesis by simp
  qed
  moreover have "rune div 262144 = a" "(rune div 4096) mod 64 = b" "(rune div 64) mod 64 = d"
      "rune mod 64 = f"
    unfolding rune using abd(2,3,4) by (rule digits4)+
  ultimately have "EncodeRune rune = [char_of (byte c), char_of (byte c1), char_of (byte c2), char_of (byte c3)]"
    using abd by (auto simp: EncodeRune_def)
  with four show ?thesis by (simp add: byte_char_of)
qed

lemma DecodeRune_local:
  assumes "\<not> byte c < 0x80" "DecodeRune (c # r) = (rune, width)" "\<not> (rune = RuneError \<and> width = 1)"
  shows "DecodeRune (c # take (width - 1) r @ X) = (rune, width) \<and> width - 1 \<le> length r \<and> 2 \<le> width"
  using assms
proof (cases rule: DecodeRune_multi_cases)
  case (two c1 r1 lo hi)
  with assms(1) show ?thesis by simp
next
  case (three c1 c2 r2 lo hi)
  with assms(1) show ?thesis by simp
next
  case (four c1 c2 c3 r3 lo hi)
  with assms(1) show ?thesis by simp
qed

subsection \<open>Strings are read back\<close>

lemma strip_prefix_append: "strip_prefix p (p @ s) = Some s"
  by (induction p) simp_all

lemma unquote_multibyte:
  assumes "\<not> byte c < 0x80"
  shows "unquote (c # r) =
           (case DecodeRune (c # r) of
              (rr, width) \<Rightarrow> prepend (EncodeRune rr) (unquote (drop (width - 1) r)))"
  using assms by simp

lemma unquote_u202:
  assumes "rune = 0x2028 \<or> rune = 0x2029"
  shows "unquote (backslash # ''u202'' @ [hex (rune mod 16)] @ X) = prepend (EncodeRune rune) (unquote X)"
  using assms
  by (auto simp: backslash_def byte_def hex_def hexval_def IsSurrogate_def)

lemma unquote_dquote: "unquote (dquote # rest) = Some ([], rest)"
  by (simp add: dquote_def byte_def)

lemma ValidString_ascii: "byte c < 0x80 \<Longrightarrow> ValidString (c # r) = ValidString r"
  by (simp add: RuneError_def)

lemma unquote_appendString:
  "ValidString s \<Longrightarrow> unquote (appendString shortBF s @ dquote # rest) = Some (s, rest)"
proof (induction s rule: length_induct)
  case (1 s)
  show ?case
  proof (cases s)
    case Nil
    then show ?thesis by (simp add: unquote_dquote del: unquote.simps)
  next
    case (Cons c r)
    show ?thesis
    proof (cases "byte c < 0x80")
      case True
      with "1.prems" Cons have v: "ValidString r" by (simp add: ValidString_ascii)
      have "unquote (appendString shortBF r @ dquote # rest) = Some (r, rest)"
        using "1.IH" v Cons by simp
      with True Cons show ?thesis
        by (simp add: unquote_escape_ascii prepend_def del: unquote.simps)
    next
      case False
      obtain rune width where d: "DecodeRune (c # r) = (rune, width)"
        by (cases "DecodeRune (c # r)") auto
      from "1.prems" Cons d have ok: "\<not> (rune = RuneError \<and> width = 1)"
        and v: "ValidString (drop (width - 1) r)"
        by (simp_all del: DecodeRune.simps)
      note loc = DecodeRune_local[OF False d ok]
      note enc = EncodeRune_DecodeRune[OF False d ok]
      let ?r' = "drop (width - 1) r"
      have ih: "unquote (appendString shortBF ?r' @ dquote # rest) = Some (?r', rest)"
        using "1.IH" v Cons by simp
      have tk: "take width (c # r) = c # take (width - 1) r"
        using loc by (cases width) simp_all
      have whole: "take width (c # r) @ ?r' = c # r"
        unfolding tk by simp
      show ?thesis
      proof (cases "rune = 0x2028 \<or> rune = 0x2029")
        case True
        then have "appendString shortBF (c # r) =
                     backslash # ''u202'' @ [hex (rune mod 16)] @ appendString shortBF ?r'"
          using False d ok by (simp del: DecodeRune.simps)
        then have "unquote (appendString shortBF (c # r) @ dquote # rest) =
                     prepend (EncodeRune rune) (unquote (appendString shortBF ?r' @ dquote # rest))"
          using unquote_u202[OF True, of "appendString shortBF ?r' @ dquote # rest"]
          by (simp del: unquote.simps)
        with ih enc whole Cons show ?thesis
          by (simp add: prepend_def del: unquote.simps DecodeRune.simps)
      next
        case plain: False
        then have "appendString shortBF (c # r) = take width (c # r) @ appendString shortBF ?r'"
          using False d ok by (auto simp del: DecodeRune.simps)
        then have "unquote (appendString shortBF (c # r) @ dquote # rest) =
                     unquote (c # take (width - 1) r @ (appendString shortBF ?r' @ dquote # rest))"
          by (simp add: tk del: unquote.simps)
        also have "\<dots> = prepend (EncodeRune rune)
                             (unquote (drop (width - 1)
                                (take (width - 1) r @ (appendString shortBF ?r' @ dquote # rest))))"
          using loc by (simp add: unquote_multibyte[OF False] del: unquote.simps DecodeRune.simps)
        also have "\<dots> = prepend (EncodeRune rune) (unquote (appendString shortBF ?r' @ dquote # rest))"
          using loc by simp
        finally show ?thesis
          using ih enc whole Cons by (simp add: prepend_def del: unquote.simps DecodeRune.simps)
      qed
    qed
  qed
qed


lemma unquote_quote:
  "ValidString s \<Longrightarrow> unquote (appendString shortBF s @ [dquote] @ rest) = Some (s, rest)"
  using unquote_appendString[of s shortBF rest] by simp

subsection \<open>The round trip\<close>

text \<open>
  Counterexample to C8 as stated: the content is the single byte 0xFF, a Go string that
  is not valid UTF-8. The wire form holds the escape of U+FFFD in its place, and decoding
  gives the three bytes of U+FFFD, not the chunk that was encoded. The content 0xFE has
  the same wire form, so no decoder gives back both chunks.
\<close>

theorem invalid_utf8_not_round_trip:
  "json_Marshal_PlanChunk True \<lparr>Path = ''a.txt'', Content = [CHR 0xFF]\<rparr> =
     Inr (wire_text ''a.txt'' [CHR 0x5C, CHR ''u'', CHR ''f'', CHR ''f'', CHR ''f'', CHR ''d'']) \<and>
   json_Marshal_PlanChunk True \<lparr>Path = ''a.txt'', Content = [CHR 0xFE]\<rparr> =
     Inr (wire_text ''a.txt'' [CHR 0x5C, CHR ''u'', CHR ''f'', CHR ''f'', CHR ''f'', CHR ''d'']) \<and>
   map_option (\<lambda>d. map byte (Content d))
     (decode_PlanChunk (wire_text ''a.txt'' [CHR 0x5C, CHR ''u'', CHR ''f'', CHR ''f'', CHR ''f'', CHR ''d'']))
     = Some [0xEF, 0xBF, 0xBD] \<and>
   map byte [CHR 0xFF] = [0xFF]"
  by (simp add: codec_defs)

text \<open>
  C8 as amended. For every chunk whose path and content are valid UTF-8, the encoder
  gives a wire form, and decoding it gives the chunk back.
\<close>

theorem chunk_round_trip_valid_utf8:
  assumes "ValidString (Path ch)" and "ValidString (Content ch)"
  shows "\<exists>w. json_Marshal_PlanChunk shortBF ch = Inr w \<and> decode_PlanChunk w = Some ch"
proof -
  let ?p = "appendString shortBF (Path ch)"
  let ?c = "appendString shortBF (Content ch)"
  let ?k1 = "''{'' @ dquote # ''path'' @ [dquote, CHR '':'', dquote]"
  let ?k2 = "'','' @ dquote # ''content'' @ [dquote, CHR '':'', dquote]"
  let ?w = "?k1 @ (?p @ [dquote] @ (?k2 @ (?c @ [dquote] @ ''}'')))"
  have m: "json_Marshal_PlanChunk shortBF ch = Inr ?w"
    by (simp add: json_Marshal_PlanChunk_def quote_def)
  have "decode_PlanChunk ?w = Some \<lparr>Path = Path ch, Content = Content ch\<rparr>"
    unfolding decode_PlanChunk_def strip_prefix_append
    by (simp only: option.case prod.case unquote_quote[OF assms(1)] unquote_quote[OF assms(2)]
          strip_prefix_append simp_thms if_True)
  then have "decode_PlanChunk ?w = Some ch" by simp
  with m show ?thesis by blast
qed

text \<open>Witness for C8 as amended: the chunk of the spec's example.\<close>

theorem chunk_round_trip_witness:
  "ValidString ''a/b.go'' \<and> ValidString ''func f(){}'' \<and>
   json_Marshal_PlanChunk True \<lparr>Path = ''a/b.go'', Content = ''func f(){}''\<rparr> =
     Inr (wire_text ''a/b.go'' ''func f(){}'') \<and>
   decode_PlanChunk (wire_text ''a/b.go'' ''func f(){}'') =
     Some \<lparr>Path = ''a/b.go'', Content = ''func f(){}''\<rparr>"
proof -
  have v: "ValidString ''a/b.go''" "ValidString ''func f(){}''"
    by (simp_all add: byte_def RuneError_def)
  have m: "json_Marshal_PlanChunk True \<lparr>Path = ''a/b.go'', Content = ''func f(){}''\<rparr> =
     Inr (wire_text ''a/b.go'' ''func f(){}'')"
    by (simp add: json_Marshal_PlanChunk_def quote_def wire_text_def byte_def escape_ascii_def htmlSafe_def)
  from chunk_round_trip_valid_utf8[of "\<lparr>Path = ''a/b.go'', Content = ''func f(){}''\<rparr>" True] v m
  show ?thesis by simp
qed

section \<open>Further properties\<close>

subsection \<open>The timer while the worker is blocked\<close>

lemma set_worker_twice:
  "set_worker i (\<lambda>w. w\<lparr>w_timerC := b\<rparr>) (set_worker i (\<lambda>w. w\<lparr>w_timerC := b'\<rparr>) s) =
   set_worker i (\<lambda>w. w\<lparr>w_timerC := b\<rparr>) s"
  by (cases "i < length (workers s)") (simp_all add: set_worker_def list_update_beyond)

text \<open>
  While a worker is blocked in \<^verbatim>\<open>stream.Recv()\<close>, the firing of its timer changes
  nothing of what follows once a response arrives without error: the state after the
  response is the same as if the timer had not fired.
\<close>

theorem timer_firing_in_recv_is_lost:
  assumes "at s i InRecv"
  shows "step e (Recv i (RecvOk choices)) (step e (TimerFires i) s) =
         step e (Recv i (RecvOk choices)) s"
  using assms
  by (simp add: at_def recv_step_def set_worker_twice)
     (simp add: set_worker_def)

theorem timer_firing_in_recv_is_lost_witness:
  "at (run (demo_env ''production'') [Open 0 None, Select 0 False] (started [''a.txt''])) 0 InRecv \<and>
   step (demo_env ''production'') (Recv 0 (write_delta ''x''))
     (step (demo_env ''production'') (TimerFires 0)
        (run (demo_env ''production'') [Open 0 None, Select 0 False] (started [''a.txt'']))) =
   step (demo_env ''production'') (Recv 0 (write_delta ''x''))
     (run (demo_env ''production'') [Open 0 None, Select 0 False] (started [''a.txt'']))"
proof -
  have a: "at (run (demo_env ''production'') [Open 0 None, Select 0 False] (started [''a.txt''])) 0 InRecv"
    by (simp add: server_defs demo_defs)
  from timer_firing_in_recv_is_lost[OF a] a show ?thesis
    by (simp add: write_delta_def)
qed

text \<open>
  When the \<^verbatim>\<open>select\<close> finds the timer's value and the context is not done, the
  worker reports ``stream timeout due to inactivity'' on the per-file error path and
  returns. No context is cancelled and the other workers are as they were.
\<close>

theorem timeout_at_select_is_file_scoped:
  assumes "at s i AtSelect"
    and "w_timerC (workers s ! i)"
    and "\<not> ctxDone s (w_ctx (workers s ! i))"
  shows "out (step e (Select i b) s) = out s @ [([], Some ''stream timeout due to inactivity'')] \<and>
         at (step e (Select i b) s) i Stopped \<and>
         ctxDone (step e (Select i b) s) = ctxDone s \<and>
         length (workers (step e (Select i b) s)) = length (workers s) \<and>
         (\<forall>j. j \<noteq> i \<longrightarrow> workers (step e (Select i b) s) ! j = workers s ! j)"
  using assms
  by (simp add: at_def select_step_def fail_def onError_def goto_def set_worker_def
        plans_Update_def onStream_def println_def Let_def split: option.splits)

theorem timeout_at_select_is_file_scoped_witness:
  "at (run (demo_env ''production'') [Open 0 None, Open 1 None, TimerFires 0]
         (started [''a.txt'', ''b.txt''])) 0 AtSelect \<and>
   out (step (demo_env ''production'') (Select 0 False)
          (run (demo_env ''production'') [Open 0 None, Open 1 None, TimerFires 0]
             (started [''a.txt'', ''b.txt'']))) = [([], Some ''stream timeout due to inactivity'')] \<and>
   at (step (demo_env ''production'') (Select 0 False)
          (run (demo_env ''production'') [Open 0 None, Open 1 None, TimerFires 0]
             (started [''a.txt'', ''b.txt'']))) 1 AtSelect"
proof -
  let ?s = "run (demo_env ''production'') [Open 0 None, Open 1 None, TimerFires 0]
             (started [''a.txt'', ''b.txt''])"
  have h: "at ?s 0 AtSelect" "w_timerC (workers ?s ! 0)" "\<not> ctxDone ?s (w_ctx (workers ?s ! 0))"
    by (simp_all add: server_defs demo_defs)
  have o: "out ?s = []" and w: "at ?s 1 AtSelect"
    by (simp_all add: server_defs demo_defs)
  from timeout_at_select_is_file_scoped[OF h, of "demo_env ''production''" False] h(1) o w
  show ?thesis by (simp add: at_def)
qed

subsection \<open>The path under which an error is recorded\<close>

text \<open>
  With one variable for all iterations of the loop (Go before 1.22), the callback
  \<^verbatim>\<open>onError\<close> reads the last path of the list once the loop has ended: an error of
  the worker of \<open>a.txt\<close> is then recorded under \<open>b.txt\<close>. With a variable per
  iteration it is recorded under \<open>a.txt\<close>.
\<close>

theorem error_recorded_under_closure_path:
  "w_filePath (workers (started [''a.txt'', ''b.txt'']) ! 0) = ''a.txt'' \<and>
   w_errPath (workers (started [''a.txt'', ''b.txt'']) ! 0) = ''b.txt'' \<and>
   FileErrs (plan_of (fail 0 ''boom'' (started [''a.txt'', ''b.txt''])) ''p1'') ''a.txt'' = None \<and>
   FileErrs (plan_of (fail 0 ''boom'' (started [''a.txt'', ''b.txt''])) ''p1'') ''b.txt'' = Some ''boom'' \<and>
   w_errPath (new_worker ((demo_env ''production'')\<lparr>loopvar_per_iteration := True\<rparr>)
                ''p1'' [''a.txt'', ''b.txt''] 0 ''a.txt'') = ''a.txt''"
  by (simp add: plan_of_def server_defs demo_defs)

subsection \<open>Nothing is ever queued\<close>

lemma list_ex_update:
  "i < length xs \<Longrightarrow> \<not> list_ex P xs \<Longrightarrow> \<not> P k \<Longrightarrow> \<not> list_ex P (xs[i := k])"
  by (auto simp: list_ex_iff dest: set_update_subset_insert[THEN subsetD])

lemma never_queued_step:
  assumes "never_queued s"
  shows "never_queued (call_step e i s)"
proof (cases "crashed s \<noteq> None \<or> \<not> i < length (calls s)")
  case True
  with assms show ?thesis by (simp add: call_step_def)
next
  case False
  then have i: "i < length (calls s)" and c: "crashed s = None" by simp_all
  from assms have inv: "running (shared s) = False" "queue (shared s) = []"
      "\<not> list_ex sending (calls s)"
    by (simp_all add: never_queued_def)
  from inv(3) i have ns: "\<not> sending (calls s ! i)"
    by (auto simp: list_ex_iff)
  show ?thesis
  proof (cases "calls s ! i")
    case (Entry params)
    with i c inv show ?thesis
      by (simp add: never_queued_def call_step_def set_call_def list_ex_update)
  next
    case (Sending params)
    with ns show ?thesis by simp
  next
    case (InBody params)
    show ?thesis
    proof (cases "handler_body e params (shared s)")
      case (Ok c')
      with handler_body_frame[OF Ok] InBody i c inv show ?thesis
        by (simp add: never_queued_def call_step_def set_call_def list_ex_update)
    next
      case (Panic m)
      with InBody i c inv show ?thesis
        by (simp add: never_queued_def call_step_def)
    next
      case Blocked
      with InBody i c assms show ?thesis
        by (simp add: call_step_def)
    qed
  next
    case InDefer
    with i c inv show ?thesis
      by (simp add: never_queued_def call_step_def set_call_def list_ex_update)
  next
    case Returned
    with i c assms show ?thesis
      by (simp add: call_step_def)
  qed
qed

text \<open>
  From a state in which \<^verbatim>\<open>running\<close> is false and the channel is empty, as
  \<^verbatim>\<open>Propose\<close> sets them up, every schedule of every number of calls keeps it so: no
  call ever finds \<^verbatim>\<open>running\<close> set, and no event is ever put in the channel.
\<close>

theorem running_is_never_set:
  assumes "never_queued s"
  shows "never_queued (schedule e order s)"
  using assms unfolding schedule_def
  by (induction order arbitrary: s) (simp_all add: never_queued_step)

theorem running_is_never_set_witness:
  "never_queued two_calls \<and>
   never_queued (schedule demo_client_env [0, 1, 0, 1, 0, 1] two_calls)"
proof -
  have n: "never_queued two_calls"
    by (simp add: never_queued_def two_calls_def client0_def)
  from running_is_never_set[OF n] n show ?thesis by simp
qed

end
